theory Spec2Isabelle
  imports Main "HOL-Library.Sublist" "HOL-Library.AList"
begin

section \<open>Plugin configuration (package plugins, config.go)\<close>

text \<open>
  Conventions of the embedding.
  \<^item> A Go \<open>string\<close> is a \<open>string\<close>; the zero value is \<open>''''\<close>.
  \<^item> A Go map is an association list with pairwise distinct keys. The order of the list
    is the order in which a \<open>range\<close> loop visits the entries (Go leaves it unspecified, so
    every theorem below holds for every order). A lookup \<open>m[k]\<close> is \<open>map_of m k\<close>
    (the zero value when the key is absent) and an assignment \<open>m[k] = v\<close> is
    \<open>AList.update k v m\<close>.
  \<^item> A slice is a list; a loop \<open>for i, x := range xs\<close> that writes \<open>xs[i]\<close> is a fold
    over the indices with \<open>xs[i := v]\<close>.
  \<^item> A pointer that is either nil or owns a fresh value is an \<open>option\<close>.
  \<^item> A Go \<open>error\<close> is its message; \<open>nil\<close> is \<open>None\<close>.
  \<^item> Log output (logrus) of this package is not part of the state.
  \<^item> Fields of \<open>Configuration\<close> that none of the embedded functions reads or writes
    (Owners, Approve, Blockades, Golint, Label, Lgtm and the two deprecation flags) live in
    the extension slot of the record, so every statement is made for a
    \<open>'a Configuration_scheme\<close>.
\<close>

datatype CompiledRegexp = CompiledRegexp string

record Blunderbuss =
  ReviewerCount :: "int option"
  MaxReviewerCount :: int
  FileWeightCount :: "int option"
  ExcludeApprovers :: bool

record RequireMatchingLabel =
  Org :: string
  Repo :: string
  Branch :: string
  PRs :: bool
  Issues :: bool
  Regexp :: string
  Re :: "CompiledRegexp option"
  MissingLabel :: string
  MissingComment :: string
  GracePeriod :: string
  GracePeriodDuration :: int

record Milestone =
  MaintainersID :: int
  MaintainersTeam :: string
  MaintainersFriendlyName :: string

record Heart =
  Adorees :: "string list"
  CommentRegexp :: string
  CommentRe :: "CompiledRegexp option"

record ConfigMapSpec =
  Name :: string
  Key :: string
  Namespace :: string
  AdditionalNamespaces :: "string list"
  Namespaces :: "string list"

record ConfigUpdater =
  Maps :: "(string \<times> ConfigMapSpec) list"
  ConfigFile :: string
  PluginFile :: string

record CherryPickUnapproved =
  BranchRegexp :: string
  BranchRe :: "CompiledRegexp option"
  Comment :: string

record SigMention =
  Regexp :: string
  Re :: "CompiledRegexp option"

record Trigger =
  Repos :: "string list"
  TrustedOrg :: string
  JoinOrgURL :: string
  OnlyOrgMembers :: bool
  IgnoreOkToTest :: bool

record ExternalPlugin =
  Name :: string
  Endpoint :: string
  Events :: "string list"

record Configuration =
  Plugins :: "(string \<times> string list) list"
  ExternalPlugins :: "(string \<times> ExternalPlugin list) list"
  Blunderbuss :: Blunderbuss
  CherryPickUnapproved :: CherryPickUnapproved
  ConfigUpdater :: ConfigUpdater
  Heart :: Heart
  RepoMilestone :: "(string \<times> Milestone) list"
  RequireMatchingLabel :: "RequireMatchingLabel list"
  SigMention :: SigMention
  Triggers :: "Trigger list"

definition defaultBlunderbussReviewerCount :: int where
  "defaultBlunderbussReviewerCount = 2"

subsection \<open>ConfigUpdater.SetDefaults\<close>

text \<open>The composite literal \<open>{Name: n}\<close>: every other field has its zero value.\<close>

definition namedSpec :: "string \<Rightarrow> ConfigMapSpec" where
  "namedSpec n =
     \<lparr>ConfigMapSpec.Name = n, Key = '''', Namespace = '''', AdditionalNamespaces = [],
      Namespaces = []\<rparr>"

text \<open>
  \<open>for name, spec := range c.Maps { spec.Namespaces = append(...); c.Maps[name] = spec }\<close>:
  the first argument is what remains to be visited, the second is the map being written.
  The loop variable \<open>spec\<close> is a copy, and here the copy is stored back under its key.
\<close>

fun namespacesLoop ::
  "(string \<times> ConfigMapSpec) list \<Rightarrow> (string \<times> ConfigMapSpec) list \<Rightarrow>
   (string \<times> ConfigMapSpec) list" where
  "namespacesLoop [] maps = maps"
| "namespacesLoop ((name, spec) # rest) maps =
     namespacesLoop rest
       (AList.update name
          (spec\<lparr>Namespaces := Namespace spec # AdditionalNamespaces spec\<rparr>) maps)"

definition SetDefaults :: "ConfigUpdater \<Rightarrow> ConfigUpdater" where
  "SetDefaults c =
     (let c1 =
        (if length (Maps c) = 0 then
           (let cf = (if ConfigFile c = '''' then ''prow/config.json'' else ConfigFile c);
                pf = (if PluginFile c = '''' then ''prow/plugins.yaml'' else PluginFile c)
            in c\<lparr>Maps :=
                   AList.update pf (namedSpec ''plugins'')
                     (AList.update cf (namedSpec ''config'') [])\<rparr>)
         else c)
      in c1\<lparr>Maps := namespacesLoop (Maps c1) (Maps c1)\<rparr>)"

subsection \<open>Configuration.setDefaults\<close>

text \<open>
  \<open>for i, p := range plugins { if p.Endpoint != "" { continue };
  c.ExternalPlugins[repo][i].Endpoint = fmt.Sprintf("http://%s", p.Name) }\<close>:
  \<open>plugins\<close> and \<open>c.ExternalPlugins[repo]\<close> are the same slice, written at index \<open>i\<close>.
\<close>

definition endpointStep :: "nat \<Rightarrow> ExternalPlugin list \<Rightarrow> ExternalPlugin list" where
  "endpointStep i plugins =
     (let p = plugins ! i
      in if Endpoint p \<noteq> '''' then plugins
         else plugins[i := (plugins ! i)\<lparr>Endpoint := ''http://'' @ ExternalPlugin.Name p\<rparr>])"

definition endpointsLoop :: "ExternalPlugin list \<Rightarrow> ExternalPlugin list" where
  "endpointsLoop plugins = fold endpointStep [0..<length plugins] plugins"

fun externalPluginsLoop ::
  "(string \<times> ExternalPlugin list) list \<Rightarrow> (string \<times> ExternalPlugin list) list \<Rightarrow>
   (string \<times> ExternalPlugin list) list" where
  "externalPluginsLoop [] m = m"
| "externalPluginsLoop ((repo, plugins) # rest) m =
     externalPluginsLoop rest (AList.update repo (endpointsLoop plugins) m)"

text \<open>
  \<open>for i, trigger := range c.Triggers { if trigger.TrustedOrg == "" || trigger.JoinOrgURL != ""
  { continue }; c.Triggers[i].JoinOrgURL = ... }\<close>
\<close>

definition triggerStep :: "nat \<Rightarrow> Trigger list \<Rightarrow> Trigger list" where
  "triggerStep i triggers =
     (let trigger = triggers ! i
      in if TrustedOrg trigger = '''' \<or> JoinOrgURL trigger \<noteq> '''' then triggers
         else triggers[i := (triggers ! i)\<lparr>JoinOrgURL :=
                ''https://github.com/orgs/'' @ TrustedOrg trigger @ ''/people''\<rparr>])"

definition triggersLoop :: "Trigger list \<Rightarrow> Trigger list" where
  "triggersLoop triggers = fold triggerStep [0..<length triggers] triggers"

text \<open>
  \<open>for _, milestone := range c.RepoMilestone { if milestone.MaintainersFriendlyName == ""
  { milestone.MaintainersFriendlyName = "SIG Chairs/TLs" } }\<close>:
  \<open>milestone\<close> is the loop's copy of the map value (\<open>Milestone\<close> is a struct, not a
  pointer). The assignment changes the copy, and nothing stores the copy back into
  \<open>c.RepoMilestone\<close>; the second argument is the map, which the loop never writes.
\<close>

fun milestoneLoop ::
  "(string \<times> Milestone) list \<Rightarrow> (string \<times> Milestone) list \<Rightarrow> (string \<times> Milestone) list" where
  "milestoneLoop [] repoMilestone = repoMilestone"
| "milestoneLoop ((repo, milestone) # rest) repoMilestone =
     (let milestone' =
        (if MaintainersFriendlyName milestone = ''''
         then milestone\<lparr>MaintainersFriendlyName := ''SIG Chairs/TLs''\<rparr>
         else milestone)
      in milestoneLoop rest repoMilestone)"

text \<open>
  \<open>for i, rml := range c.RequireMatchingLabel { if rml.GracePeriod == ""
  { c.RequireMatchingLabel[i].GracePeriod = "5s" } }\<close>
\<close>

definition gracePeriodStep :: "nat \<Rightarrow> RequireMatchingLabel list \<Rightarrow> RequireMatchingLabel list" where
  "gracePeriodStep i rmls =
     (let rml = rmls ! i
      in if GracePeriod rml = '''' then rmls[i := (rmls ! i)\<lparr>GracePeriod := ''5s''\<rparr>]
         else rmls)"

definition gracePeriodLoop :: "RequireMatchingLabel list \<Rightarrow> RequireMatchingLabel list" where
  "gracePeriodLoop rmls = fold gracePeriodStep [0..<length rmls] rmls"

definition defaultSigMentionRegexp :: string where
  "defaultSigMentionRegexp =
     ''(?m)@kubernetes/sig-(['' @ [CHR 0x5C] @ ''w-]*)-(misc|test-failures|bugs|feature-requests|proposals|pr-reviews|api-reviews)''"

definition defaultCherryPickComment :: string where
  "defaultCherryPickComment =
     ''This PR is not for the master branch but does not have the `cherry-pick-approved`  label. Adding the `do-not-merge/cherry-pick-not-approved`  label.''
     @ [CHR 0x0A, CHR 0x0A]
     @ ''To approve the cherry-pick, please assign the patch release manager for the release branch by writing `/assign @username` in a comment when ready.''
     @ [CHR 0x0A, CHR 0x0A]
     @ ''The list of patch release managers for each release can be found [here](https://git.k8s.io/sig-release/release-managers.md).''"

definition setDefaults :: "'a Configuration_scheme \<Rightarrow> 'a Configuration_scheme" where
  "setDefaults c =
     (let c1 = c\<lparr>ConfigUpdater := SetDefaults (ConfigUpdater c)\<rparr>;
          c2 = c1\<lparr>ExternalPlugins := externalPluginsLoop (ExternalPlugins c1) (ExternalPlugins c1)\<rparr>;
          c3 = (if ReviewerCount (Blunderbuss c2) = None \<and> FileWeightCount (Blunderbuss c2) = None
                then c2\<lparr>Blunderbuss :=
                       (Blunderbuss c2)\<lparr>ReviewerCount := Some defaultBlunderbussReviewerCount\<rparr>\<rparr>
                else c2);
          c4 = c3\<lparr>Triggers := triggersLoop (Triggers c3)\<rparr>;
          c5 = (if SigMention.Regexp (SigMention c4) = ''''
                then c4\<lparr>SigMention :=
                       (SigMention c4)\<lparr>SigMention.Regexp := defaultSigMentionRegexp\<rparr>\<rparr>
                else c4);
          c6 = c5\<lparr>RepoMilestone := milestoneLoop (RepoMilestone c5) (RepoMilestone c5)\<rparr>;
          c7 = (if BranchRegexp (CherryPickUnapproved c6) = ''''
                then c6\<lparr>CherryPickUnapproved :=
                       (CherryPickUnapproved c6)\<lparr>BranchRegexp := ''^release-.*$''\<rparr>\<rparr>
                else c6);
          c8 = (if Comment (CherryPickUnapproved c7) = ''''
                then c7\<lparr>CherryPickUnapproved :=
                       (CherryPickUnapproved c7)\<lparr>Comment := defaultCherryPickComment\<rparr>\<rparr>
                else c7)
      in c8\<lparr>RequireMatchingLabel := gracePeriodLoop (RequireMatchingLabel c8)\<rparr>)"

subsection \<open>What lies outside the package\<close>

text \<open>
  \<open>compileRegexpsAndDurations\<close> and \<open>validatePlugins\<close> use three functions of Go's
  library and one package-level variable that is declared outside the files at hand, and
  \<open>validatePlugins\<close> depends on a choice of Go's runtime. They are parameters of the
  embedding:
  \<^item> \<open>regexp_Compile\<close> is \<open>regexp.Compile\<close>: the compiled expression, or the message of
    the error;
  \<^item> \<open>time_ParseDuration\<close> is \<open>time.ParseDuration\<close>: the duration in nanoseconds, or
    the message of the error;
  \<^item> \<open>strconv_Quote\<close> is what the verb \<open>%q\<close> prints for a string (a double-quoted Go
    literal with escapes);
  \<^item> \<open>pluginHelp\<close> is the key set of the registry \<open>pluginHelp\<close>, which the plugins fill
    when they register;
  \<^item> \<open>rangeSeed\<close> is what the runtime chooses for the order in which the second loop of
    \<open>validatePlugins\<close> visits the map (see \<open>rangeOrder\<close> below).
\<close>

record environment =
  regexp_Compile :: "string \<Rightarrow> string + CompiledRegexp"
  time_ParseDuration :: "string \<Rightarrow> string + int"
  strconv_Quote :: "string \<Rightarrow> string"
  pluginHelp :: "string set"
  rangeSeed :: "nat list"

subsection \<open>compileRegexpsAndDurations\<close>

text \<open>
  The loop \<open>for i := range rs\<close> over the indices still to visit. \<open>rs\<close> shares its
  elements with \<open>pc.RequireMatchingLabel\<close>, so what was written before a failure stays
  written; the result is the slice and the error.
\<close>

fun labelsLoop ::
  "environment \<Rightarrow> nat list \<Rightarrow> RequireMatchingLabel list \<Rightarrow>
   RequireMatchingLabel list \<times> string option" where
  "labelsLoop env [] rs = (rs, None)"
| "labelsLoop env (i # is) rs =
     (case regexp_Compile env (RequireMatchingLabel.Regexp (rs ! i)) of
        Inl err \<Rightarrow>
          (rs, Some (''failed to compile label regexp: ''
                     @ strconv_Quote env (RequireMatchingLabel.Regexp (rs ! i))
                     @ '', error: '' @ err))
      | Inr re \<Rightarrow>
          (let rs1 = rs[i := (rs ! i)\<lparr>RequireMatchingLabel.Re := Some re\<rparr>]
           in case time_ParseDuration env (GracePeriod (rs1 ! i)) of
                Inl err \<Rightarrow>
                  (rs1, Some (''failed to compile grace period duration: ''
                              @ strconv_Quote env (GracePeriod (rs1 ! i))
                              @ '', error: '' @ err))
              | Inr dur \<Rightarrow>
                  labelsLoop env is (rs1[i := (rs1 ! i)\<lparr>GracePeriodDuration := dur\<rparr>])))"

definition compileRegexpsAndDurations ::
  "environment \<Rightarrow> 'a Configuration_scheme \<Rightarrow> 'a Configuration_scheme \<times> string option" where
  "compileRegexpsAndDurations env pc =
     (case regexp_Compile env (SigMention.Regexp (SigMention pc)) of
        Inl err \<Rightarrow> (pc, Some err)
      | Inr cRe \<Rightarrow>
          (let pc1 = pc\<lparr>SigMention := (SigMention pc)\<lparr>SigMention.Re := Some cRe\<rparr>\<rparr>
           in case regexp_Compile env (BranchRegexp (CherryPickUnapproved pc1)) of
                Inl err \<Rightarrow> (pc1, Some err)
              | Inr branchRe \<Rightarrow>
                  (let pc2 = pc1\<lparr>CherryPickUnapproved :=
                               (CherryPickUnapproved pc1)\<lparr>BranchRe := Some branchRe\<rparr>\<rparr>
                   in case regexp_Compile env (CommentRegexp (Heart pc2)) of
                        Inl err \<Rightarrow> (pc2, Some err)
                      | Inr commentRe \<Rightarrow>
                          (let pc3 = pc2\<lparr>Heart := (Heart pc2)\<lparr>CommentRe := Some commentRe\<rparr>\<rparr>;
                               rs = RequireMatchingLabel pc3;
                               (rs', err) = labelsLoop env [0..<length rs] rs
                           in (pc3\<lparr>RequireMatchingLabel := rs'\<rparr>, err)))))"

subsection \<open>findDuplicatedPluginConfig, validatePlugins, validateExternalPlugins\<close>

definition findDuplicatedPluginConfig :: "string list \<Rightarrow> string list \<Rightarrow> string list" where
  "findDuplicatedPluginConfig repoConfig orgConfig =
     fold (\<lambda>repoPlugin dupes.
             fold (\<lambda>orgPlugin dupes.
                     if repoPlugin = orgPlugin then dupes @ [repoPlugin] else dupes)
               orgConfig dupes)
       repoConfig []"

text \<open>\<open>strings.Join(elems, sep)\<close>.\<close>

fun strings_Join :: "string list \<Rightarrow> string \<Rightarrow> string" where
  "strings_Join [] sep = ''''"
| "strings_Join [x] sep = x"
| "strings_Join (x # y # ys) sep = x @ sep @ strings_Join (y # ys) sep"

text \<open>The verb \<open>%v\<close> on a \<open>[]string\<close>: the elements between brackets, separated by a space.\<close>

definition fmt_v :: "string list \<Rightarrow> string" where
  "fmt_v xs = ''['' @ strings_Join xs '' '' @ '']''"

text \<open>\<open>strings.Contains(repo, "/")\<close> and \<open>strings.Split(repo, "/")[0]\<close>.\<close>

definition containsSlash :: "string \<Rightarrow> bool" where
  "containsSlash repo = (CHR ''/'' \<in> set repo)"

definition orgOf :: "string \<Rightarrow> string" where
  "orgOf repo = takeWhile (\<lambda>c. c \<noteq> CHR ''/'') repo"

text \<open>A lookup in a map whose values are slices: the nil slice when the key is absent.\<close>

definition lookup :: "(string \<times> 'v list) list \<Rightarrow> string \<Rightarrow> 'v list" where
  "lookup m k = (case map_of m k of None \<Rightarrow> [] | Some v \<Rightarrow> v)"

definition unknownStep :: "environment \<Rightarrow> string \<times> string list \<Rightarrow> string list \<Rightarrow> string list" where
  "unknownStep env = (\<lambda>(repo, configuration) errors.
     fold (\<lambda>plugin errors.
             if plugin \<notin> pluginHelp env then errors @ [''unknown plugin: '' @ plugin]
             else errors)
       configuration errors)"

definition duplicatedStep ::
  "(string \<times> string list) list \<Rightarrow> string \<times> string list \<Rightarrow> string list \<Rightarrow> string list" where
  "duplicatedStep plugins = (\<lambda>(repo, repoConfig) errors.
     if containsSlash repo then
       (let org = orgOf repo;
            dupes = findDuplicatedPluginConfig repoConfig (lookup plugins org)
        in if length dupes > 0
           then errors @ [''plugins '' @ fmt_v dupes @ '' are duplicated for '' @ repo
                          @ '' and '' @ org]
           else errors)
     else errors)"

text \<open>
  Go does not say in which order a \<open>range\<close> visits the entries of a map, and two loops over
  the same map need not agree. A map is a list of its entries here, and a loop visits the
  list from left to right; this covers every order of one loop, since the list is
  arbitrary. \<open>validatePlugins\<close> has two loops over the same map, and the lines of its message
  show the order of both. The second loop visits the entries in the order \<open>rangeOrder\<close> of
  the numbers that the runtime chooses: each number selects the entry visited next, among
  those not visited yet; when the numbers run out, the rest is visited from left to right.
\<close>

fun rangeOrder :: "nat list \<Rightarrow> 'a list \<Rightarrow> 'a list" where
  "rangeOrder [] entries = entries"
| "rangeOrder (k # seed) [] = []"
| "rangeOrder (k # seed) (entry # entries) =
     (let i = k mod length (entry # entries)
      in (entry # entries) ! i
         # rangeOrder seed (take i (entry # entries) @ drop (Suc i) (entry # entries)))"

definition validatePlugins :: "environment \<Rightarrow> (string \<times> string list) list \<Rightarrow> string option" where
  "validatePlugins env plugins =
     (let errors = fold (unknownStep env) plugins [];
          errors = fold (duplicatedStep plugins) (rangeOrder (rangeSeed env) plugins) errors
      in if length errors > 0
         then Some ('' invalid plugin configuration:'' @ [CHR 0x0A, CHR 0x09]
                    @ strings_Join errors [CHR 0x0A, CHR 0x09])
         else None)"

definition externalStep ::
  "(string \<times> ExternalPlugin list) list \<Rightarrow> string \<times> ExternalPlugin list \<Rightarrow> string list \<Rightarrow>
   string list" where
  "externalStep pluginMap = (\<lambda>(repo, plugins) errors.
     if \<not> containsSlash repo then errors
     else
       (let org = orgOf repo;
            orgConfig = map ExternalPlugin.Name (lookup pluginMap org);
            repoConfig = map ExternalPlugin.Name plugins;
            dupes = findDuplicatedPluginConfig repoConfig orgConfig
        in if length dupes > 0
           then errors @ [''external plugins '' @ fmt_v dupes @ '' are duplicated for '' @ repo
                          @ '' and '' @ org]
           else errors))"

definition validateExternalPlugins :: "(string \<times> ExternalPlugin list) list \<Rightarrow> string option" where
  "validateExternalPlugins pluginMap =
     (let errors = fold (externalStep pluginMap) pluginMap []
      in if length errors > 0
         then Some (''invalid plugin configuration:'' @ [CHR 0x0A, CHR 0x09]
                    @ strings_Join errors [CHR 0x0A, CHR 0x09])
         else None)"

subsection \<open>Configuration.Validate\<close>

text \<open>The configuration is changed in place, so the result is the configuration and the error.\<close>

definition Validate ::
  "environment \<Rightarrow> 'a Configuration_scheme \<Rightarrow> 'a Configuration_scheme \<times> string option" where
  "Validate env c =
     (let c1 = setDefaults c;
          (c2, err) = compileRegexpsAndDurations env c1
      in if err \<noteq> None then (c2, err)
         else (case validatePlugins env (Plugins c2) of
                 Some e \<Rightarrow> (c2, Some e)
               | None \<Rightarrow>
                   (case validateExternalPlugins (ExternalPlugins c2) of
                      Some e \<Rightarrow> (c2, Some e)
                    | None \<Rightarrow> (c2, None))))"

subsection \<open>What the loops do to one element\<close>

text \<open>
  Auxiliary functions for the proofs: the effect of each defaulting step on the field or
  element it touches.
\<close>

definition withNamespaces :: "ConfigMapSpec \<Rightarrow> ConfigMapSpec" where
  "withNamespaces spec = spec\<lparr>Namespaces := Namespace spec # AdditionalNamespaces spec\<rparr>"

definition withEndpoint :: "ExternalPlugin \<Rightarrow> ExternalPlugin" where
  "withEndpoint p =
     (if Endpoint p \<noteq> '''' then p else p\<lparr>Endpoint := ''http://'' @ ExternalPlugin.Name p\<rparr>)"

definition withJoinOrgURL :: "Trigger \<Rightarrow> Trigger" where
  "withJoinOrgURL t =
     (if TrustedOrg t = '''' \<or> JoinOrgURL t \<noteq> '''' then t
      else t\<lparr>JoinOrgURL := ''https://github.com/orgs/'' @ TrustedOrg t @ ''/people''\<rparr>)"

definition withGracePeriod :: "RequireMatchingLabel \<Rightarrow> RequireMatchingLabel" where
  "withGracePeriod r = (if GracePeriod r = '''' then r\<lparr>GracePeriod := ''5s''\<rparr> else r)"

definition derivedMaps :: "ConfigUpdater \<Rightarrow> (string \<times> ConfigMapSpec) list" where
  "derivedMaps c =
     (if Maps c = [] then
        AList.update (if PluginFile c = '''' then ''prow/plugins.yaml'' else PluginFile c)
          (namedSpec ''plugins'')
          [(if ConfigFile c = '''' then ''prow/config.json'' else ConfigFile c, namedSpec ''config'')]
      else Maps c)"

definition withReviewerCount :: "Blunderbuss \<Rightarrow> Blunderbuss" where
  "withReviewerCount b =
     (if ReviewerCount b = None \<and> FileWeightCount b = None
      then b\<lparr>ReviewerCount := Some defaultBlunderbussReviewerCount\<rparr> else b)"

definition withSigMentionRegexp :: "SigMention \<Rightarrow> SigMention" where
  "withSigMentionRegexp s =
     (if SigMention.Regexp s = '''' then s\<lparr>SigMention.Regexp := defaultSigMentionRegexp\<rparr> else s)"

definition withCherryPickDefaults :: "CherryPickUnapproved \<Rightarrow> CherryPickUnapproved" where
  "withCherryPickDefaults p =
     p\<lparr>BranchRegexp := (if BranchRegexp p = '''' then ''^release-.*$'' else BranchRegexp p),
       Comment := (if Comment p = '''' then defaultCherryPickComment else Comment p)\<rparr>"

definition stepBlunderbuss :: "'a Configuration_scheme \<Rightarrow> 'a Configuration_scheme" where
  "stepBlunderbuss c =
     (if ReviewerCount (Blunderbuss c) = None \<and> FileWeightCount (Blunderbuss c) = None
      then c\<lparr>Blunderbuss :=
             (Blunderbuss c)\<lparr>ReviewerCount := Some defaultBlunderbussReviewerCount\<rparr>\<rparr>
      else c)"

definition stepSigMention :: "'a Configuration_scheme \<Rightarrow> 'a Configuration_scheme" where
  "stepSigMention c =
     (if SigMention.Regexp (SigMention c) = ''''
      then c\<lparr>SigMention := (SigMention c)\<lparr>SigMention.Regexp := defaultSigMentionRegexp\<rparr>\<rparr>
      else c)"

definition stepBranchRegexp :: "'a Configuration_scheme \<Rightarrow> 'a Configuration_scheme" where
  "stepBranchRegexp c =
     (if BranchRegexp (CherryPickUnapproved c) = ''''
      then c\<lparr>CherryPickUnapproved :=
             (CherryPickUnapproved c)\<lparr>BranchRegexp := ''^release-.*$''\<rparr>\<rparr>
      else c)"

definition stepComment :: "'a Configuration_scheme \<Rightarrow> 'a Configuration_scheme" where
  "stepComment c =
     (if Comment (CherryPickUnapproved c) = ''''
      then c\<lparr>CherryPickUnapproved :=
             (CherryPickUnapproved c)\<lparr>Comment := defaultCherryPickComment\<rparr>\<rparr>
      else c)"

subsection \<open>Example inputs\<close>

text \<open>The zero value of \<open>Configuration\<close>: what unmarshaling an empty file leaves.\<close>

definition zeroConfiguration :: Configuration where
  "zeroConfiguration =
     \<lparr>Plugins = [], ExternalPlugins = [],
      Blunderbuss = \<lparr>ReviewerCount = None, MaxReviewerCount = 0, FileWeightCount = None,
                     ExcludeApprovers = False\<rparr>,
      CherryPickUnapproved = \<lparr>BranchRegexp = '''', BranchRe = None, Comment = ''''\<rparr>,
      ConfigUpdater = \<lparr>Maps = [], ConfigFile = '''', PluginFile = ''''\<rparr>,
      Heart = \<lparr>Adorees = [], CommentRegexp = '''', CommentRe = None\<rparr>,
      RepoMilestone = [], RequireMatchingLabel = [],
      SigMention = \<lparr>SigMention.Regexp = '''', SigMention.Re = None\<rparr>,
      Triggers = []\<rparr>"

definition milestoneExample :: Configuration where
  "milestoneExample =
     zeroConfiguration\<lparr>RepoMilestone :=
       [(''kubernetes/kubernetes'',
         \<lparr>MaintainersID = 0, MaintainersTeam = '''', MaintainersFriendlyName = ''''\<rparr>)]\<rparr>"

definition unsetUpdater :: ConfigUpdater where
  "unsetUpdater = \<lparr>Maps = [], ConfigFile = '''', PluginFile = ''''\<rparr>"

definition namespacesExample :: ConfigUpdater where
  "namespacesExample =
     \<lparr>Maps = [(''label_sync/labels.yaml'',
               \<lparr>ConfigMapSpec.Name = ''label-config'', Key = '''', Namespace = ''ns1'',
                AdditionalNamespaces = [''ns2'', ''ns3''], Namespaces = [''stale'']\<rparr>)],
      ConfigFile = ''old/config.yaml'', PluginFile = ''''\<rparr>"

definition defaultsExample :: Configuration where
  "defaultsExample =
     zeroConfiguration
       \<lparr>ExternalPlugins :=
          [(''kubernetes'', [\<lparr>ExternalPlugin.Name = ''needs-rebase'', Endpoint = '''', Events = []\<rparr>])],
        RequireMatchingLabel :=
          [\<lparr>Org = ''kubernetes'', Repo = '''', Branch = '''', PRs = True, Issues = False,
            RequireMatchingLabel.Regexp = ''^kind/'', RequireMatchingLabel.Re = None,
            MissingLabel = ''needs-kind'', MissingComment = '''', GracePeriod = '''',
            GracePeriodDuration = 0\<rparr>],
        Triggers :=
          [\<lparr>Repos = [''kubernetes''], TrustedOrg = ''kubernetes'', JoinOrgURL = '''',
            OnlyOrgMembers = False, IgnoreOkToTest = False\<rparr>]\<rparr>"

subsection \<open>The errors a validator records, as the specification words them\<close>

text \<open>
  One message for every occurrence of a plugin name that the registry does not know,
  scope by scope.
\<close>

definition unknownPluginErrors :: "environment \<Rightarrow> (string \<times> string list) list \<Rightarrow> string list" where
  "unknownPluginErrors env plugins =
     concat (map (\<lambda>(repo, configuration).
                    map (\<lambda>plugin. ''unknown plugin: '' @ plugin)
                      (filter (\<lambda>plugin. plugin \<notin> pluginHelp env) configuration))
               plugins)"

text \<open>
  The names of a scope \<open>org/repo\<close> that its organisation lists too: every name of the
  repository's list, once for each time the organisation's list has it.
\<close>

definition sharedWithOrg :: "string list \<Rightarrow> string list \<Rightarrow> string list" where
  "sharedWithOrg repoConfig orgConfig =
     concat (map (\<lambda>repoPlugin. filter (\<lambda>orgPlugin. repoPlugin = orgPlugin) orgConfig) repoConfig)"

definition duplicatedMessage :: "string \<Rightarrow> string list \<Rightarrow> string \<Rightarrow> string" where
  "duplicatedMessage kind dupes repo =
     kind @ '' '' @ fmt_v dupes @ '' are duplicated for '' @ repo @ '' and '' @ orgOf repo"

text \<open>
  One message for every scope with a slash that shares a name with the scope of its
  organisation. For the built-in plugins the scopes are taken in the order \<open>visited\<close> and
  the organisation is looked up in the map \<open>plugins\<close>.
\<close>

definition duplicatedPluginErrors ::
  "(string \<times> string list) list \<Rightarrow> (string \<times> string list) list \<Rightarrow> string list" where
  "duplicatedPluginErrors plugins visited =
     concat (map (\<lambda>(repo, repoConfig).
                    if containsSlash repo
                       \<and> sharedWithOrg repoConfig (lookup plugins (orgOf repo)) \<noteq> []
                    then [duplicatedMessage ''plugins''
                            (sharedWithOrg repoConfig (lookup plugins (orgOf repo))) repo]
                    else [])
               visited)"

definition duplicatedExternalErrors :: "(string \<times> ExternalPlugin list) list \<Rightarrow> string list" where
  "duplicatedExternalErrors pluginMap =
     concat (map (\<lambda>(repo, plugins).
                    if containsSlash repo
                       \<and> sharedWithOrg (map ExternalPlugin.Name plugins)
                            (map ExternalPlugin.Name (lookup pluginMap (orgOf repo))) \<noteq> []
                    then [duplicatedMessage ''external plugins''
                            (sharedWithOrg (map ExternalPlugin.Name plugins)
                               (map ExternalPlugin.Name (lookup pluginMap (orgOf repo)))) repo]
                    else [])
               pluginMap)"

definition joined :: "string \<Rightarrow> string list \<Rightarrow> string option" where
  "joined header errors =
     (if errors = [] then None
      else Some (header @ [CHR 0x0A, CHR 0x09] @ strings_Join errors [CHR 0x0A, CHR 0x09]))"

text \<open>
  An environment for the examples. It agrees with Go on the strings the examples use:
  \<open>regexp.Compile\<close> rejects \<open>(\<close> with the message below and accepts the other patterns of
  the examples, \<open>time.ParseDuration\<close> reads \<open>5s\<close> as five seconds and rejects \<open>soon\<close>, and
  \<open>%q\<close> puts a string that needs no escape between double quotes. The registry knows
  \<open>trigger\<close> and \<open>lgtm\<close>. The second loop of \<open>validatePlugins\<close> starts at the second entry of
  the map.
\<close>

definition exampleEnv :: environment where
  "exampleEnv =
     \<lparr>regexp_Compile =
        (\<lambda>s. if s = ''('' then Inl ''error parsing regexp: missing closing ): `(`''
             else Inr (CompiledRegexp s)),
      time_ParseDuration =
        (\<lambda>s. if s = ''5s'' then Inr 5000000000
             else Inl (''time: invalid duration '' @ [CHR 0x22] @ s @ [CHR 0x22])),
      strconv_Quote = (\<lambda>s. [CHR 0x22] @ s @ [CHR 0x22]),
      pluginHelp = {''trigger'', ''lgtm''},
      rangeSeed = [1]\<rparr>"

text \<open>The end-to-end example of the specification.\<close>

definition duplicatedExample :: Configuration where
  "duplicatedExample =
     zeroConfiguration
       \<lparr>Plugins := [(''kubernetes'', [''trigger'']),
                    (''kubernetes/kubernetes'', [''trigger'', ''lgtm''])]\<rparr>"

text \<open>The same, with a comment pattern for the heart plugin that does not compile.\<close>

definition duplicatedBadRegexpExample :: Configuration where
  "duplicatedBadRegexpExample =
     duplicatedExample\<lparr>Heart := \<lparr>Adorees = [], CommentRegexp = ''('', CommentRe = None\<rparr>\<rparr>"

text \<open>A built-in plugin and an external plugin, each enabled for the organisation and again
  for one of its repositories.\<close>

definition bothDuplicatedExample :: Configuration where
  "bothDuplicatedExample =
     duplicatedExample
       \<lparr>ExternalPlugins :=
          [(''kubernetes'',
            [\<lparr>ExternalPlugin.Name = ''needs-rebase'', Endpoint = '''', Events = []\<rparr>]),
           (''kubernetes/kubernetes'',
            [\<lparr>ExternalPlugin.Name = ''needs-rebase'', Endpoint = '''', Events = []\<rparr>])]\<rparr>"

text \<open>Names repeated inside one scope only.\<close>

definition repeatedExample :: Configuration where
  "repeatedExample =
     zeroConfiguration
       \<lparr>Plugins := [(''kubernetes'', [''trigger'', ''trigger'']),
                    (''kubernetes/kubernetes'', [''lgtm'', ''lgtm''])],
        ExternalPlugins :=
          [(''kubernetes/kubernetes'',
            [\<lparr>ExternalPlugin.Name = ''needs-rebase'', Endpoint = '''', Events = []\<rparr>,
             \<lparr>ExternalPlugin.Name = ''needs-rebase'', Endpoint = '''', Events = []\<rparr>])]\<rparr>"

text \<open>An unknown plugin next to a duplicated one.\<close>

definition unknownAndDuplicatedExample :: Configuration where
  "unknownAndDuplicatedExample =
     zeroConfiguration
       \<lparr>Plugins := [(''kubernetes'', [''trigger'']),
                    (''kubernetes/kubernetes'', [''trigger'', ''welcome''])]\<rparr>"

text \<open>
  Two repositories of one organisation, each with the plugin of the organisation and
  with a plugin that is not registered.
\<close>

definition twoReposPlugins :: "(string \<times> string list) list" where
  "twoReposPlugins =
     [(''kubernetes'', [''trigger'']),
      (''kubernetes/a'', [''trigger'', ''welcome'']),
      (''kubernetes/b'', [''trigger'', ''hello''])]"

subsection \<open>The compilation pass, as the specification words it\<close>

text \<open>
  The strings the pass compiles, in the order of the specification: the three patterns of
  the sig-mention, cherry-pick and heart plugins, then for every entry of
  \<open>RequireMatchingLabel\<close> its pattern followed by its grace period.
\<close>

datatype compileTask = PlainRegexp string | LabelRegexp string | GraceDuration string

definition compileTasks :: "'a Configuration_scheme \<Rightarrow> compileTask list" where
  "compileTasks pc =
     PlainRegexp (SigMention.Regexp (SigMention pc))
     # PlainRegexp (BranchRegexp (CherryPickUnapproved pc))
     # PlainRegexp (CommentRegexp (Heart pc))
     # concat (map (\<lambda>r. [LabelRegexp (RequireMatchingLabel.Regexp r),
                            GraceDuration (GracePeriod r)])
                (RequireMatchingLabel pc))"

text \<open>The error of one task, if it fails.\<close>

fun taskError :: "environment \<Rightarrow> compileTask \<Rightarrow> string option" where
  "taskError env (PlainRegexp p) =
     (case regexp_Compile env p of Inl err \<Rightarrow> Some err | Inr re \<Rightarrow> None)"
| "taskError env (LabelRegexp p) =
     (case regexp_Compile env p of
        Inl err \<Rightarrow> Some (''failed to compile label regexp: '' @ strconv_Quote env p
                          @ '', error: '' @ err)
      | Inr re \<Rightarrow> None)"
| "taskError env (GraceDuration d) =
     (case time_ParseDuration env d of
        Inl err \<Rightarrow> Some (''failed to compile grace period duration: '' @ strconv_Quote env d
                          @ '', error: '' @ err)
      | Inr dur \<Rightarrow> None)"

fun firstError :: "string option list \<Rightarrow> string option" where
  "firstError [] = None"
| "firstError (Some e # rest) = Some e"
| "firstError (None # rest) = firstError rest"

definition badCommentRegexpExample :: Configuration where
  "badCommentRegexpExample =
     zeroConfiguration\<lparr>Heart := \<lparr>Adorees = [], CommentRegexp = ''('', CommentRe = None\<rparr>\<rparr>"

definition badLabelRegexpExample :: Configuration where
  "badLabelRegexpExample =
     zeroConfiguration
       \<lparr>RequireMatchingLabel :=
          [\<lparr>Org = ''kubernetes'', Repo = '''', Branch = '''', PRs = True, Issues = False,
            RequireMatchingLabel.Regexp = ''('', RequireMatchingLabel.Re = None,
            MissingLabel = ''needs-kind'', MissingComment = '''', GracePeriod = '''',
            GracePeriodDuration = 0\<rparr>]\<rparr>"

section \<open>Job configuration (package config)\<close>

text \<open>
  The pod fragments of a preset (\<open>v1.EnvVar\<close>, \<open>v1.Volume\<close>, \<open>v1.VolumeMount\<close>) are types
  of the Kubernetes API. The package passes them through without looking inside; each is
  kept here with its name and one more field (the value of the variable, the path of the
  mount).
\<close>

datatype EnvVar = EnvVar string string

datatype Volume = Volume string

datatype VolumeMount = VolumeMount string string

record Preset =
  Labels :: "(string \<times> string) list"
  Env :: "EnvVar list"
  Volumes :: "Volume list"
  VolumeMounts :: "VolumeMount list"

record JobConfig =
  Presets :: "Preset list"

record OwnersDirBlacklist =
  Repos :: "(string \<times> string list) list"
  Default :: "string list"

text \<open>\<open>Config\<close> embeds \<open>JobConfig\<close> and \<open>ProwConfig\<close>: it has the fields of both.\<close>

record Config = JobConfig +
  ProwJobNamespace :: string
  PodNamespace :: string
  OwnersDirBlacklist :: OwnersDirBlacklist

subsection \<open>Config.mergeJobConfig\<close>

text \<open>
  \<open>for label, val := range preset.Labels\<close>, with the set \<open>validLabels\<close> of the pairs seen so
  far: the error of the first pair that was seen before, or the set with the pairs of this
  preset added.
\<close>

fun presetLabelsLoop :: "(string \<times> string) list \<Rightarrow> string set \<Rightarrow> string + string set" where
  "presetLabelsLoop [] validLabels = Inr validLabels"
| "presetLabelsLoop ((label, val) # rest) validLabels =
     (let pair = label @ '':'' @ val
      in if pair \<in> validLabels
         then Inl (''duplicated preset '' @ [CHR 0x27] @ ''label:value'' @ [CHR 0x27]
                   @ '' pair : '' @ pair)
         else presetLabelsLoop rest (insert pair validLabels))"

text \<open>\<open>for _, preset := range c.Presets\<close>.\<close>

fun presetsLoop :: "Preset list \<Rightarrow> string set \<Rightarrow> string option" where
  "presetsLoop [] validLabels = None"
| "presetsLoop (preset # rest) validLabels =
     (case presetLabelsLoop (Labels preset) validLabels of
        Inl err \<Rightarrow> Some err
      | Inr validLabels' \<Rightarrow> presetsLoop rest validLabels')"

text \<open>
  The receiver is changed in place before the check, so the result is the configuration
  with the presets appended and the error.
\<close>

definition mergeJobConfig :: "'a Config_scheme \<Rightarrow> JobConfig \<Rightarrow> 'a Config_scheme \<times> string option" where
  "mergeJobConfig c jc =
     (let c1 = c\<lparr>Presets := Presets c @ Presets jc\<rparr>
      in (c1, presetsLoop (Presets c1) {}))"

subsection \<open>The pairs of a list of presets, as the specification words them\<close>

text \<open>
  The label/value pairs of all presets, in the order of the loops: a pair is an entry of
  the \<open>Labels\<close> map of a preset, a label with its value.
\<close>

definition labelValuePairs :: "Preset list \<Rightarrow> (string \<times> string) list" where
  "labelValuePairs presets = concat (map Labels presets)"

text \<open>
  What the code builds from a pair, compares and prints: the string made of the label, a
  colon and the value.
\<close>

definition labelValue :: "string \<times> string \<Rightarrow> string" where
  "labelValue = (\<lambda>(label, val). label @ '':'' @ val)"

definition pairStrings :: "Preset list \<Rightarrow> string list" where
  "pairStrings presets = map labelValue (labelValuePairs presets)"

definition duplicatedPairMessage :: "string \<Rightarrow> string" where
  "duplicatedPairMessage pair =
     ''duplicated preset '' @ [CHR 0x27] @ ''label:value'' @ [CHR 0x27] @ '' pair : '' @ pair"

definition teamPreset :: Preset where
  "teamPreset = \<lparr>Labels = [(''team'', ''x'')], Env = [], Volumes = [], VolumeMounts = []\<rparr>"

text \<open>
  One preset with two labels, \<open>a:b\<close> with the value \<open>c\<close> and \<open>a\<close> with the value \<open>b:c\<close>.
\<close>

definition colonPreset :: Preset where
  "colonPreset =
     \<lparr>Labels = [(''a:b'', ''c''), (''a'', ''b:c'')], Env = [], Volumes = [], VolumeMounts = []\<rparr>"

definition emptyConfig :: Config where
  "emptyConfig =
     \<lparr>Presets = [], ProwJobNamespace = '''', PodNamespace = '''',
      OwnersDirBlacklist = \<lparr>Repos = [], Default = []\<rparr>\<rparr>"

subsection \<open>What lies outside the package: the file system and the YAML parser\<close>

text \<open>
  What \<open>filepath.Walk\<close> can find below a root. A node carries the name that
  \<open>info.Name()\<close> reports; the entries of a directory are in the order in which the walk
  visits them (lexical). \<open>File\<close> is an entry that is not a directory; \<open>UnreadableDir\<close> is a
  directory whose entries cannot be listed, with the error; \<open>Unstatable\<close> is an entry whose
  \<open>Lstat\<close> fails, with the error.
\<close>

datatype fsnode =
    File string
  | Dir string "fsnode list"
  | UnreadableDir string string
  | Unstatable string string

fun nodeName :: "fsnode \<Rightarrow> string" where
  "nodeName (File name) = name"
| "nodeName (Dir name entries) = name"
| "nodeName (UnreadableDir name err) = name"
| "nodeName (Unstatable name err) = name"

fun nodeIsDir :: "fsnode \<Rightarrow> bool" where
  "nodeIsDir (File name) = False"
| "nodeIsDir (Dir name entries) = True"
| "nodeIsDir (UnreadableDir name err) = True"
| "nodeIsDir (Unstatable name err) = False"

text \<open>
  The calls that leave the package are parameters:
  \<^item> \<open>os_Stat\<close> is \<open>os.Stat\<close>: the error, or whether the path is a directory;
  \<^item> \<open>walkTree\<close> is what \<open>filepath.Walk\<close> sees at a root;
  \<^item> \<open>ioutil_ReadFile\<close> is \<open>ioutil.ReadFile\<close>: the error, or the bytes;
  \<^item> \<open>yaml_UnmarshalConfig\<close> and \<open>yaml_UnmarshalJobConfig\<close> are \<open>yaml.Unmarshal\<close> into a
    fresh \<open>Config\<close> and into a fresh \<open>JobConfig\<close>: the error, or the value.
\<close>

record world =
  os_Stat :: "string \<Rightarrow> string + bool"
  walkTree :: "string \<Rightarrow> fsnode"
  ioutil_ReadFile :: "string \<Rightarrow> string + string"
  yaml_UnmarshalConfig :: "string \<Rightarrow> string + Config"
  yaml_UnmarshalJobConfig :: "string \<Rightarrow> string + JobConfig"

text \<open>
  \<open>filepath.Ext\<close>: the suffix of the last element of the path that starts at its last dot,
  empty when that element has no dot.
\<close>

definition filepath_Ext :: "string \<Rightarrow> string" where
  "filepath_Ext path =
     (let element = takeWhile (\<lambda>c. c \<noteq> CHR ''/'') (rev path)
      in if CHR ''.'' \<in> set element
         then ''.'' @ rev (takeWhile (\<lambda>c. c \<noteq> CHR ''.'') element)
         else '''')"

text \<open>
  \<open>filepath.Base\<close>: the last element of the path, trailing slashes removed first; \<open>.\<close> for
  the empty path and \<open>/\<close> for a path of slashes only.
\<close>

definition filepath_Base :: "string \<Rightarrow> string" where
  "filepath_Base path =
     (if path = '''' then ''.''
      else (let stripped = dropWhile (\<lambda>c. c = CHR ''/'') (rev path);
                element = rev (takeWhile (\<lambda>c. c \<noteq> CHR ''/'') stripped)
            in if element = '''' then ''/'' else element))"

text \<open>The elements of a path: what stands between its slashes.\<close>

fun pathElements :: "string \<Rightarrow> string list" where
  "pathElements [] = [[]]"
| "pathElements (c # cs) =
     (if c = CHR ''/'' then [] # pathElements cs
      else (case pathElements cs of
              [] \<Rightarrow> [[c]]
            | element # elements \<Rightarrow> (c # element) # elements))"

text \<open>
  \<open>filepath.Clean\<close>, element by element: an empty element and \<open>.\<close> are dropped; \<open>..\<close> removes
  the element kept before it, is dropped at the start of a rooted path and is kept at the
  start of any other path. \<open>kept\<close> holds the elements kept so far, the last one first.
\<close>

fun cleanElements :: "bool \<Rightarrow> string list \<Rightarrow> string list \<Rightarrow> string list" where
  "cleanElements rooted [] kept = rev kept"
| "cleanElements rooted (element # elements) kept =
     (if element = '''' \<or> element = ''.'' then cleanElements rooted elements kept
      else if element = ''..'' then
        (case kept of
           [] \<Rightarrow>
             if rooted then cleanElements rooted elements []
             else cleanElements rooted elements [''..'']
         | previous # before \<Rightarrow>
             if previous = ''..'' then cleanElements rooted elements (''..'' # kept)
             else cleanElements rooted elements before)
      else cleanElements rooted elements (element # kept))"

text \<open>
  The cleaned path: \<open>.\<close> for the empty path and for a path that is not rooted and keeps no
  element, the slash and the elements kept for a rooted path.
\<close>

definition filepath_Clean :: "string \<Rightarrow> string" where
  "filepath_Clean path =
     (if path = '''' then ''.''
      else (let rooted = (hd path = CHR ''/'');
                kept = cleanElements rooted (pathElements path) []
            in if rooted then ''/'' @ strings_Join kept ''/''
               else if kept = [] then ''.''
               else strings_Join kept ''/''))"

text \<open>
  \<open>filepath.Join\<close> of a directory path and the name of one of its entries: the empty
  arguments are left out, the others are joined with a slash, and the result is cleaned.
\<close>

definition filepath_Join :: "string \<Rightarrow> string \<Rightarrow> string" where
  "filepath_Join dir name =
     (if dir \<noteq> '''' then filepath_Clean (dir @ ''/'' @ name)
      else if name \<noteq> '''' then filepath_Clean name
      else '''')"

subsection \<open>yamlToConfig\<close>

text \<open>
  The second argument is the unmarshaling for the type of the target (\<open>*Config\<close> or
  \<open>*JobConfig\<close>).
\<close>

definition yamlToConfig :: "world \<Rightarrow> (string \<Rightarrow> string + 'c) \<Rightarrow> string \<Rightarrow> string + 'c" where
  "yamlToConfig w unmarshal path =
     (case ioutil_ReadFile w path of
        Inl err \<Rightarrow> Inl (''error reading '' @ path @ '': '' @ err)
      | Inr b \<Rightarrow>
          (case unmarshal b of
             Inl err \<Rightarrow> Inl (''error unmarshaling '' @ path @ '': '' @ err)
           | Inr nc \<Rightarrow> Inr nc))"

subsection \<open>The function that loadConfig passes to filepath.Walk\<close>

text \<open>
  The closure reads and writes \<open>uniqueBasenames\<close> and \<open>nc\<close>; the log is what logrus
  receives, one record for each walk error (the error and the path of the message).
\<close>

record walkState =
  uniqueBasenames :: "string set"
  nc :: Config
  walkLog :: "(string \<times> string) list"

text \<open>
  A call of the function: with \<open>path\<close>, \<open>info.Name()\<close> and \<open>info.IsDir()\<close> when the walk has
  the information on the entry, or with the path and the error when it has not.
\<close>

datatype visit = Visit string string bool | VisitError string string

text \<open>What the function returns: nil, \<open>filepath.SkipDir\<close>, or another error.\<close>

datatype walkResult = Continue | SkipDir | Fail string

definition walkFn :: "world \<Rightarrow> walkState \<Rightarrow> visit \<Rightarrow> walkState \<times> walkResult" where
  "walkFn w st v =
     (case v of
        VisitError path err \<Rightarrow> (st\<lparr>walkLog := walkLog st @ [(err, path)]\<rparr>, Continue)
      | Visit path name isDir \<Rightarrow>
          if prefix ''..'' name then (if isDir then (st, SkipDir) else (st, Continue))
          else if filepath_Ext path \<noteq> ''.yaml'' \<and> filepath_Ext path \<noteq> ''.yml''
          then (st, Continue)
          else if isDir then (st, Continue)
          else
            (let base = filepath_Base path
             in if base \<in> uniqueBasenames st
                then (st, Fail (''duplicated basename is not allowed: '' @ base))
                else
                  (let st1 = st\<lparr>uniqueBasenames := insert base (uniqueBasenames st)\<rparr>
                   in case yamlToConfig w (yaml_UnmarshalJobConfig w) path of
                        Inl err \<Rightarrow> (st1, Fail err)
                      | Inr subConfig \<Rightarrow>
                          (case mergeJobConfig (nc st1) subConfig of
                             (nc1, None) \<Rightarrow> (st1\<lparr>nc := nc1\<rparr>, Continue)
                           | (nc1, Some err) \<Rightarrow> (st1\<lparr>nc := nc1\<rparr>, Fail err)))))"

subsection \<open>filepath.Walk\<close>

text \<open>
  The walk of Go's library, for the function above. \<open>walk\<close> visits a node whose \<open>Lstat\<close>
  succeeded (an \<open>Unstatable\<close> node reaches it only as the root, from \<open>filepath_Walk\<close>):
  a file is passed to the function; a directory is listed, passed to the function with
  the error of the listing if there is one, and entered when both went well.
  \<open>walkEntries\<close> goes through the entries of a directory: an entry whose \<open>Lstat\<close> fails is
  passed to the function with the error; \<open>SkipDir\<close> from a directory skips that directory,
  \<open>SkipDir\<close> from a file skips the rest of the entries; any other error stops the walk.
\<close>

fun walk :: "world \<Rightarrow> fsnode \<Rightarrow> string \<Rightarrow> walkState \<Rightarrow> walkState \<times> walkResult"
  and walkEntries :: "world \<Rightarrow> fsnode list \<Rightarrow> string \<Rightarrow> walkState \<Rightarrow> walkState \<times> walkResult"
  where
  "walk w (File name) path st = walkFn w st (Visit path name False)"
| "walk w (Dir name entries) path st =
     (case walkFn w st (Visit path name True) of
        (st1, Continue) \<Rightarrow> walkEntries w entries path st1
      | (st1, r) \<Rightarrow> (st1, r))"
| "walk w (UnreadableDir name err) path st = walkFn w st (VisitError path err)"
| "walk w (Unstatable name err) path st = walkFn w st (VisitError path err)"
| "walkEntries w [] dir st = (st, Continue)"
| "walkEntries w (entry # entries) dir st =
     (let filename = filepath_Join dir (nodeName entry)
      in case entry of
           Unstatable name err \<Rightarrow>
             (case walkFn w st (VisitError filename err) of
                (st1, Fail e) \<Rightarrow> (st1, Fail e)
              | (st1, r) \<Rightarrow> walkEntries w entries dir st1)
         | _ \<Rightarrow>
             (case walk w entry filename st of
                (st1, Continue) \<Rightarrow> walkEntries w entries dir st1
              | (st1, SkipDir) \<Rightarrow>
                  if nodeIsDir entry then walkEntries w entries dir st1 else (st1, SkipDir)
              | (st1, Fail e) \<Rightarrow> (st1, Fail e)))"

definition filepath_Walk :: "world \<Rightarrow> string \<Rightarrow> walkState \<Rightarrow> walkState \<times> string option" where
  "filepath_Walk w root st =
     (case walk w (walkTree w root) root st of
        (st1, Fail e) \<Rightarrow> (st1, Some e)
      | (st1, r) \<Rightarrow> (st1, None))"

subsection \<open>loadConfig and Load\<close>

text \<open>
  The result is the log of the walk and either the error or the configuration. (The
  print statements that the function has for debugging are left out.)
\<close>

definition loadConfig ::
  "world \<Rightarrow> string \<Rightarrow> string \<Rightarrow> (string \<times> string) list \<times> (string + Config)" where
  "loadConfig w prowConfig jobConfig =
     (case os_Stat w prowConfig of
        Inl err \<Rightarrow> ([], Inl err)
      | Inr isDir \<Rightarrow>
          if isDir then ([], Inl (''prowConfig cannot be a dir - '' @ prowConfig))
          else
            (case yamlToConfig w (yaml_UnmarshalConfig w) prowConfig of
               Inl err \<Rightarrow> ([], Inl err)
             | Inr nc0 \<Rightarrow>
                 if jobConfig = '''' then ([], Inr nc0)
                 else
                   (case os_Stat w jobConfig of
                      Inl err \<Rightarrow> ([], Inl err)
                    | Inr isDir \<Rightarrow>
                        if \<not> isDir then
                          (case yamlToConfig w (yaml_UnmarshalJobConfig w) jobConfig of
                             Inl err \<Rightarrow> ([], Inl err)
                           | Inr jc \<Rightarrow>
                               (case mergeJobConfig nc0 jc of
                                  (nc1, Some err) \<Rightarrow> ([], Inl err)
                                | (nc1, None) \<Rightarrow> ([], Inr nc1)))
                        else
                          (case filepath_Walk w jobConfig
                                  \<lparr>uniqueBasenames = {}, nc = nc0, walkLog = []\<rparr> of
                             (st, Some err) \<Rightarrow> (walkLog st, Inl err)
                           | (st, None) \<Rightarrow> (walkLog st, Inr (nc st))))))"

text \<open>
  \<open>Load\<close> returns what \<open>loadConfig\<close> returns (its later checks are commented out); nothing
  in the embedded code panics, so the deferred \<open>recover\<close> has nothing to catch.
\<close>

definition Load :: "world \<Rightarrow> string \<Rightarrow> string \<Rightarrow> (string \<times> string) list \<times> (string + Config)" where
  "Load w prowConfig jobConfig = loadConfig w prowConfig jobConfig"

subsection \<open>The directory walk, as the specification words it\<close>

definition isYamlPath :: "string \<Rightarrow> bool" where
  "isYamlPath path = (filepath_Ext path = ''.yaml'' \<or> filepath_Ext path = ''.yml'')"

text \<open>
  The files that the walk parses, in the order of the walk: the regular files with the
  extension \<open>.yaml\<close> or \<open>.yml\<close> whose name does not start with \<open>..\<close>, outside every
  directory whose name starts with \<open>..\<close> and outside what cannot be listed.
\<close>

fun yamlFiles :: "fsnode \<Rightarrow> string \<Rightarrow> string list"
  and yamlFilesIn :: "fsnode list \<Rightarrow> string \<Rightarrow> string list" where
  "yamlFiles (File name) path = (if \<not> prefix ''..'' name \<and> isYamlPath path then [path] else [])"
| "yamlFiles (Dir name entries) path = (if prefix ''..'' name then [] else yamlFilesIn entries path)"
| "yamlFiles (UnreadableDir name err) path = []"
| "yamlFiles (Unstatable name err) path = []"
| "yamlFilesIn [] dir = []"
| "yamlFilesIn (entry # entries) dir =
     yamlFiles entry (filepath_Join dir (nodeName entry)) @ yamlFilesIn entries dir"

definition duplicatedBasenameMessage :: "string \<Rightarrow> string" where
  "duplicatedBasenameMessage base = ''duplicated basename is not allowed: '' @ base"

text \<open>
  Loading one fragment, given the basenames seen so far and the accumulated configuration:
  the basename must be new, the file must be read and parsed, and its presets must merge.
\<close>

definition loadFile ::
  "world \<Rightarrow> string \<Rightarrow> string set \<times> Config \<Rightarrow> (string set \<times> Config) \<times> string option" where
  "loadFile w path = (\<lambda>(seen, c).
     if filepath_Base path \<in> seen
     then ((seen, c), Some (duplicatedBasenameMessage (filepath_Base path)))
     else (case yamlToConfig w (yaml_UnmarshalJobConfig w) path of
             Inl err \<Rightarrow> ((insert (filepath_Base path) seen, c), Some err)
           | Inr subConfig \<Rightarrow>
               ((insert (filepath_Base path) seen, fst (mergeJobConfig c subConfig)),
                snd (mergeJobConfig c subConfig))))"

text \<open>Loading fragments one after the other, up to the first that fails.\<close>

fun loadFiles ::
  "world \<Rightarrow> string list \<Rightarrow> string set \<times> Config \<Rightarrow> (string set \<times> Config) \<times> string option" where
  "loadFiles w [] s = (s, None)"
| "loadFiles w (path # paths) s =
     (case loadFile w path s of
        (s1, None) \<Rightarrow> loadFiles w paths s1
      | (s1, Some e) \<Rightarrow> (s1, Some e))"

definition core :: "walkState \<Rightarrow> string set \<times> Config" where
  "core st = (uniqueBasenames st, nc st)"

fun failure :: "walkResult \<Rightarrow> string option" where
  "failure Continue = None"
| "failure SkipDir = None"
| "failure (Fail e) = Some e"

text \<open>
  A world for the examples: the main configuration file \<open>config.yaml\<close> is empty, and the
  job configuration is the directory \<open>jobs\<close>, whose tree is the argument. Every file
  parses to the fragment with no presets, except \<open>jobs/broken.yaml\<close>, whose bytes
  \<open>presets: [\<close> the YAML parser rejects, and \<open>jobs/secret.yaml\<close>, which cannot be opened.
\<close>

definition exampleWorld :: "fsnode \<Rightarrow> world" where
  "exampleWorld tree =
     \<lparr>os_Stat = (\<lambda>path. if path = ''config.yaml'' then Inr False
                        else if path = ''jobs'' then Inr True
                        else Inl (''stat '' @ path @ '': no such file or directory'')),
      walkTree = (\<lambda>root. tree),
      ioutil_ReadFile =
        (\<lambda>path. if path = ''jobs/broken.yaml'' then Inr ''presets: [''
                else if path = ''jobs/secret.yaml''
                then Inl ''open jobs/secret.yaml: permission denied''
                else Inr ''''),
      yaml_UnmarshalConfig = (\<lambda>b. Inr emptyConfig),
      yaml_UnmarshalJobConfig =
        (\<lambda>b. if b = ''presets: [''
             then Inl ''error converting YAML to JSON: yaml: line 1: did not find expected node content''
             else Inr \<lparr>Presets = []\<rparr>)\<rparr>"

text \<open>One fragment that does not parse, and no other file.\<close>

definition brokenTree :: fsnode where
  "brokenTree = Dir ''jobs'' [File ''broken.yaml'']"

text \<open>One fragment that cannot be read, and no other file.\<close>

definition secretTree :: fsnode where
  "secretTree = Dir ''jobs'' [File ''secret.yaml'']"

text \<open>
  The example of the specification, \<open>a/x.yaml\<close> and \<open>b/x.yaml\<close>, after an entry whose
  \<open>Lstat\<close> fails.
\<close>

definition twiceTree :: fsnode where
  "twiceTree =
     Dir ''jobs''
       [Unstatable ''0'' ''lstat jobs/0: permission denied'',
        Dir ''a'' [File ''x.yaml''],
        Dir ''b'' [File ''x.yaml'']]"

section \<open>Properties of the defaulting pass\<close>

lemma update_middle:
  "k \<notin> fst ` set pre \<Longrightarrow> AList.update k v (pre @ (k, w) # rest) = pre @ (k, v) # rest"
  by (induction pre) auto

lemma fold_store_back:
  "distinct (map fst es) \<Longrightarrow> fst ` set pre \<inter> fst ` set es = {} \<Longrightarrow>
   fold (\<lambda>(k, v) m. AList.update k (f v) m) es (pre @ es) = pre @ map (\<lambda>(k, v). (k, f v)) es"
proof (induction es arbitrary: pre)
  case Nil
  then show ?case by simp
next
  case (Cons e es)
  obtain k v where e: "e = (k, v)" by (cases e)
  have k: "k \<notin> fst ` set pre" using Cons.prems(2) e by auto
  have d: "distinct (map fst es)" using Cons.prems(1) by simp
  have dj: "fst ` set (pre @ [(k, f v)]) \<inter> fst ` set es = {}"
    using Cons.prems e by auto
  have "fold (\<lambda>(k, v) m. AList.update k (f v) m) (e # es) (pre @ e # es)
        = fold (\<lambda>(k, v) m. AList.update k (f v) m) es ((pre @ [(k, f v)]) @ es)"
    using k by (simp add: e update_middle)
  also have "\<dots> = (pre @ [(k, f v)]) @ map (\<lambda>(k, v). (k, f v)) es"
    by (rule Cons.IH [OF d dj])
  finally show ?case by (simp add: e)
qed

lemma fold_index_update:
  "n \<le> length xs \<Longrightarrow>
   fold (\<lambda>i ys. ys[i := f (ys ! i)]) [0..<n] xs = map f (take n xs) @ drop n xs"
proof (induction n)
  case 0
  then show ?case by simp
next
  case (Suc n)
  then have n: "n < length xs" by simp
  have "fold (\<lambda>i ys. ys[i := f (ys ! i)]) [0..<Suc n] xs
        = (map f (take n xs) @ drop n xs)[n := f ((map f (take n xs) @ drop n xs) ! n)]"
    using Suc by simp
  also have "\<dots> = map f (take n xs) @ (drop n xs)[0 := f (xs ! n)]"
    using n by (simp add: list_update_append nth_append)
  also have "\<dots> = map f (take n xs) @ f (xs ! n) # drop (Suc n) xs"
    using n by (simp add: Cons_nth_drop_Suc [symmetric])
  also have "\<dots> = map f (take (Suc n) xs) @ drop (Suc n) xs"
    using n by (simp add: take_Suc_conv_app_nth)
  finally show ?case .
qed

lemma namespacesLoop_fold:
  "namespacesLoop es m = fold (\<lambda>(k, v) m. AList.update k (withNamespaces v) m) es m"
  by (induction es m rule: namespacesLoop.induct) (simp_all add: withNamespaces_def)

lemma namespacesLoop_map:
  "distinct (map fst m) \<Longrightarrow> namespacesLoop m m = map (\<lambda>(k, v). (k, withNamespaces v)) m"
  using fold_store_back [of m "[]" withNamespaces] by (simp add: namespacesLoop_fold)

lemma externalPluginsLoop_fold:
  "externalPluginsLoop es m = fold (\<lambda>(k, v) m. AList.update k (endpointsLoop v) m) es m"
  by (induction es m rule: externalPluginsLoop.induct) simp_all

lemma externalPluginsLoop_map:
  "distinct (map fst m) \<Longrightarrow>
   externalPluginsLoop m m = map (\<lambda>(k, v). (k, endpointsLoop v)) m"
  using fold_store_back [of m "[]" endpointsLoop] by (simp add: externalPluginsLoop_fold)

lemma fold_cong_index:
  "(\<And>i ys. i < n \<Longrightarrow> length ys = n \<Longrightarrow> g i ys = ys[i := f (ys ! i)]) \<Longrightarrow>
   length xs = n \<Longrightarrow> k \<le> n \<Longrightarrow>
   fold g [0..<k] xs = fold (\<lambda>i ys. ys[i := f (ys ! i)]) [0..<k] xs"
proof (induction k)
  case 0
  then show ?case by simp
next
  case (Suc k)
  have len: "length (fold (\<lambda>i ys. ys[i := f (ys ! i)]) [0..<k] xs) = n"
    using Suc.prems by (simp add: fold_index_update)
  show ?case using Suc len by simp
qed

lemma index_loop_map:
  assumes "\<And>i ys. i < length ys \<Longrightarrow> g i ys = ys[i := f (ys ! i)]"
  shows "fold g [0..<length xs] xs = map f xs"
proof -
  have "fold g [0..<length xs] xs = fold (\<lambda>i ys. ys[i := f (ys ! i)]) [0..<length xs] xs"
    by (rule fold_cong_index [where n = "length xs"]) (simp_all add: assms)
  then show ?thesis by (simp add: fold_index_update)
qed

lemma endpointsLoop_map: "endpointsLoop ps = map withEndpoint ps"
  unfolding endpointsLoop_def
  by (rule index_loop_map) (simp add: endpointStep_def withEndpoint_def Let_def)

lemma triggersLoop_map: "triggersLoop ts = map withJoinOrgURL ts"
  unfolding triggersLoop_def
  by (rule index_loop_map) (simp add: triggerStep_def withJoinOrgURL_def Let_def)

lemma gracePeriodLoop_map: "gracePeriodLoop rs = map withGracePeriod rs"
  unfolding gracePeriodLoop_def
  by (rule index_loop_map) (simp add: gracePeriodStep_def withGracePeriod_def Let_def)

lemma milestoneLoop_id: "milestoneLoop es m = m"
  by (induction es m rule: milestoneLoop.induct) (simp_all add: Let_def)

lemma withNamespaces_idem: "withNamespaces (withNamespaces s) = withNamespaces s"
  by (simp add: withNamespaces_def)

lemma withEndpoint_idem: "withEndpoint (withEndpoint p) = withEndpoint p"
  by (simp add: withEndpoint_def)

lemma withJoinOrgURL_idem: "withJoinOrgURL (withJoinOrgURL t) = withJoinOrgURL t"
  by (simp add: withJoinOrgURL_def)

lemma withGracePeriod_idem: "withGracePeriod (withGracePeriod r) = withGracePeriod r"
  by (simp add: withGracePeriod_def)

lemma derivedMaps_distinct: "distinct (map fst (Maps c)) \<Longrightarrow> distinct (map fst (derivedMaps c))"
  by (simp add: derivedMaps_def)

lemma derivedMaps_nonempty: "derivedMaps c \<noteq> []"
  by (simp add: derivedMaps_def)

lemma SetDefaults_derived:
  "SetDefaults c = c\<lparr>Maps := namespacesLoop (derivedMaps c) (derivedMaps c)\<rparr>"
proof (cases "Maps c = []")
  case True
  then show ?thesis
    unfolding SetDefaults_def derivedMaps_def Let_def by (simp del: namespacesLoop.simps)
next
  case False
  then show ?thesis
    unfolding SetDefaults_def derivedMaps_def Let_def by (simp del: namespacesLoop.simps)
qed

lemma SetDefaults_closed:
  "distinct (map fst (Maps c)) \<Longrightarrow>
   SetDefaults c = c\<lparr>Maps := map (\<lambda>(k, v). (k, withNamespaces v)) (derivedMaps c)\<rparr>"
  using derivedMaps_distinct [of c] namespacesLoop_map [of "derivedMaps c"]
  by (simp add: SetDefaults_derived)

lemma SetDefaults_idem:
  assumes "distinct (map fst (Maps c))"
  shows "SetDefaults (SetDefaults c) = SetDefaults c"
proof -
  let ?m = "map (\<lambda>(k, v). (k, withNamespaces v)) (derivedMaps c)"
  have d: "distinct (map fst ?m)"
    using derivedMaps_distinct [OF assms] by (simp add: comp_def case_prod_beta)
  have ne: "?m \<noteq> []" by (simp add: derivedMaps_nonempty)
  have dm: "derivedMaps (c\<lparr>Maps := ?m\<rparr>) = ?m"
    using ne by (simp add: derivedMaps_def)
  have "SetDefaults (c\<lparr>Maps := ?m\<rparr>) = c\<lparr>Maps := map (\<lambda>(k, v). (k, withNamespaces v)) ?m\<rparr>"
    using SetDefaults_closed [of "c\<lparr>Maps := ?m\<rparr>"] d dm by simp
  also have "map (\<lambda>(k, v). (k, withNamespaces v)) ?m = ?m"
    by (simp add: case_prod_beta withNamespaces_idem)
  finally show ?thesis by (simp add: SetDefaults_closed [OF assms])
qed

lemma setDefaults_steps:
  "setDefaults c =
     (\<lambda>c. c\<lparr>RequireMatchingLabel := gracePeriodLoop (RequireMatchingLabel c)\<rparr>)
     (stepComment (stepBranchRegexp
       ((\<lambda>c. c\<lparr>RepoMilestone := milestoneLoop (RepoMilestone c) (RepoMilestone c)\<rparr>)
       (stepSigMention
         ((\<lambda>c. c\<lparr>Triggers := triggersLoop (Triggers c)\<rparr>)
         (stepBlunderbuss
           ((\<lambda>c. c\<lparr>ExternalPlugins := externalPluginsLoop (ExternalPlugins c) (ExternalPlugins c)\<rparr>)
           (c\<lparr>ConfigUpdater := SetDefaults (ConfigUpdater c)\<rparr>))))))))"
  unfolding setDefaults_def stepComment_def stepBranchRegexp_def stepSigMention_def
    stepBlunderbuss_def Let_def
  by (rule refl)

lemma stepBlunderbuss_closed:
  "stepBlunderbuss c = c\<lparr>Blunderbuss := withReviewerCount (Blunderbuss c)\<rparr>"
  by (simp add: stepBlunderbuss_def withReviewerCount_def)

lemma stepSigMention_closed:
  "stepSigMention c = c\<lparr>SigMention := withSigMentionRegexp (SigMention c)\<rparr>"
  by (simp add: stepSigMention_def withSigMentionRegexp_def)

lemma stepCherryPick_closed:
  "stepComment (stepBranchRegexp c) =
   c\<lparr>CherryPickUnapproved := withCherryPickDefaults (CherryPickUnapproved c)\<rparr>"
  by (simp add: stepComment_def stepBranchRegexp_def withCherryPickDefaults_def)

lemma setDefaults_closed:
  assumes "distinct (map fst (ExternalPlugins c))"
  shows "setDefaults c =
     c\<lparr>ConfigUpdater := SetDefaults (ConfigUpdater c),
       ExternalPlugins := map (\<lambda>(k, v). (k, map withEndpoint v)) (ExternalPlugins c),
       Blunderbuss := withReviewerCount (Blunderbuss c),
       Triggers := map withJoinOrgURL (Triggers c),
       SigMention := withSigMentionRegexp (SigMention c),
       CherryPickUnapproved := withCherryPickDefaults (CherryPickUnapproved c),
       RequireMatchingLabel := map withGracePeriod (RequireMatchingLabel c)\<rparr>"
  using assms
  unfolding setDefaults_steps stepCherryPick_closed stepSigMention_closed stepBlunderbuss_closed
  by (simp add: externalPluginsLoop_map endpointsLoop_map triggersLoop_map gracePeriodLoop_map
      milestoneLoop_id)

lemma defaultSigMentionRegexp_nonempty: "defaultSigMentionRegexp \<noteq> ''''"
  by (simp add: defaultSigMentionRegexp_def)

lemma defaultCherryPickComment_nonempty: "defaultCherryPickComment \<noteq> ''''"
  by (simp add: defaultCherryPickComment_def)

lemma withReviewerCount_idem: "withReviewerCount (withReviewerCount b) = withReviewerCount b"
  by (simp add: withReviewerCount_def)

lemma withSigMentionRegexp_idem:
  "withSigMentionRegexp (withSigMentionRegexp s) = withSigMentionRegexp s"
  by (simp add: withSigMentionRegexp_def defaultSigMentionRegexp_nonempty)

lemma withCherryPickDefaults_idem:
  "withCherryPickDefaults (withCherryPickDefaults p) = withCherryPickDefaults p"
  by (simp add: withCherryPickDefaults_def defaultCherryPickComment_nonempty)

lemma SetDefaults_distinct:
  "distinct (map fst (Maps c)) \<Longrightarrow> distinct (map fst (Maps (SetDefaults c)))"
  using derivedMaps_distinct [of c]
  by (simp add: SetDefaults_closed comp_def case_prod_beta)

lemma RepoMilestone_steps:
  "RepoMilestone (stepBlunderbuss c) = RepoMilestone c"
  "RepoMilestone (stepSigMention c) = RepoMilestone c"
  "RepoMilestone (stepBranchRegexp c) = RepoMilestone c"
  "RepoMilestone (stepComment c) = RepoMilestone c"
  by (simp_all add: stepBlunderbuss_def stepSigMention_def stepBranchRegexp_def stepComment_def)

lemma setDefaults_RepoMilestone: "RepoMilestone (setDefaults c) = RepoMilestone c"
  unfolding setDefaults_steps by (simp add: RepoMilestone_steps milestoneLoop_id)

text \<open>
  Claim C4 says that after the defaulting pass every entry of \<open>RepoMilestone\<close> whose
  \<open>MaintainersFriendlyName\<close> was empty has the name \<open>"SIG Chairs/TLs"\<close>, visibly in the
  configuration itself. The loop assigns the default to its own copy of the entry and never
  stores it (\<open>setDefaults_RepoMilestone\<close>: the map is unchanged, whatever it holds). At a
  configuration with the single entry \<open>kubernetes/kubernetes\<close> whose name is empty, the
  name is still empty after \<open>setDefaults\<close>.
\<close>

theorem setDefaults_leaves_MaintainersFriendlyName_empty:
  "RepoMilestone (setDefaults milestoneExample) =
     [(''kubernetes/kubernetes'',
       \<lparr>MaintainersID = 0, MaintainersTeam = '''', MaintainersFriendlyName = ''''\<rparr>)]"
  by (simp add: setDefaults_RepoMilestone milestoneExample_def)

lemma length_update_ge: "length m \<le> length (AList.update k v m)"
  by (induction m) auto

lemma namespacesLoop_length: "length m \<le> length (namespacesLoop es m)"
proof (induction es m rule: namespacesLoop.induct)
  case (1 maps)
  then show ?case by simp
next
  case (2 name spec rest maps)
  have "length maps \<le> length (AList.update name
          (spec\<lparr>Namespaces := Namespace spec # AdditionalNamespaces spec\<rparr>) maps)"
    by (rule length_update_ge)
  with 2 show ?case by simp
qed

lemma SetDefaults_Maps_nonempty: "Maps (SetDefaults c) \<noteq> []"
proof -
  have "length (derivedMaps c) \<le> length (Maps (SetDefaults c))"
    by (simp add: SetDefaults_derived namespacesLoop_length)
  moreover have "0 < length (derivedMaps c)"
    using derivedMaps_nonempty [of c] by simp
  ultimately show ?thesis by auto
qed

text \<open>
  Claim C5. When \<open>Maps\<close>, \<open>ConfigFile\<close> and \<open>PluginFile\<close> are all empty, defaulting leaves
  exactly two entries in \<open>Maps\<close>: \<open>prow/config.json\<close> with a spec named \<open>config\<close> and
  \<open>prow/plugins.yaml\<close> with a spec named \<open>plugins\<close> (their resolved \<open>Namespaces\<close> is the
  one empty namespace). When \<open>Maps\<close> is not empty, its keys and entries stay as they are,
  whatever the deprecated fields hold, apart from the derived field \<open>Namespaces\<close> that
  claim C6 is about. In every case \<open>Maps\<close> is not empty after defaulting.
\<close>

theorem SetDefaults_Maps:
  "(Maps c = [] \<and> ConfigFile c = '''' \<and> PluginFile c = '''' \<longrightarrow>
      Maps (SetDefaults c) =
        [(''prow/config.json'', (namedSpec ''config'')\<lparr>Namespaces := ['''']\<rparr>),
         (''prow/plugins.yaml'', (namedSpec ''plugins'')\<lparr>Namespaces := ['''']\<rparr>)])
   \<and> (Maps c \<noteq> [] \<and> distinct (map fst (Maps c)) \<longrightarrow>
      Maps (SetDefaults c) =
        map (\<lambda>(name, spec).
               (name, spec\<lparr>Namespaces := Namespace spec # AdditionalNamespaces spec\<rparr>))
          (Maps c)
      \<and> ConfigFile (SetDefaults c) = ConfigFile c
      \<and> PluginFile (SetDefaults c) = PluginFile c)
   \<and> Maps (SetDefaults c) \<noteq> []"
proof (intro conjI impI)
  assume "Maps c = [] \<and> ConfigFile c = '''' \<and> PluginFile c = ''''"
  then show "Maps (SetDefaults c) =
        [(''prow/config.json'', (namedSpec ''config'')\<lparr>Namespaces := ['''']\<rparr>),
         (''prow/plugins.yaml'', (namedSpec ''plugins'')\<lparr>Namespaces := ['''']\<rparr>)]"
    by (simp add: SetDefaults_def namedSpec_def)
next
  assume a: "Maps c \<noteq> [] \<and> distinct (map fst (Maps c))"
  then have dm: "derivedMaps c = Maps c" by (simp add: derivedMaps_def)
  from a show "Maps (SetDefaults c) =
        map (\<lambda>(name, spec).
               (name, spec\<lparr>Namespaces := Namespace spec # AdditionalNamespaces spec\<rparr>))
          (Maps c)"
    by (simp add: SetDefaults_closed dm withNamespaces_def)
  show "ConfigFile (SetDefaults c) = ConfigFile c"
    by (simp add: SetDefaults_derived)
  show "PluginFile (SetDefaults c) = PluginFile c"
    by (simp add: SetDefaults_derived)
next
  show "Maps (SetDefaults c) \<noteq> []" by (rule SetDefaults_Maps_nonempty)
qed

theorem SetDefaults_Maps_witness:
  "Maps unsetUpdater = [] \<and> ConfigFile unsetUpdater = '''' \<and> PluginFile unsetUpdater = ''''
   \<and> map (\<lambda>(name, spec). (name, ConfigMapSpec.Name spec)) (Maps (SetDefaults unsetUpdater)) =
        [(''prow/config.json'', ''config''), (''prow/plugins.yaml'', ''plugins'')]
   \<and> Maps namespacesExample \<noteq> [] \<and> distinct (map fst (Maps namespacesExample))
   \<and> map fst (Maps (SetDefaults namespacesExample)) = [''label_sync/labels.yaml'']
   \<and> ConfigFile (SetDefaults namespacesExample) = ''old/config.yaml''"
  using SetDefaults_Maps [of unsetUpdater] SetDefaults_Maps [of namespacesExample]
  by (simp add: unsetUpdater_def namespacesExample_def namedSpec_def)

text \<open>
  Claim C6. After defaulting, every entry of \<open>Maps\<close> has
  \<open>Namespaces = Namespace # AdditionalNamespaces\<close>; for an entry that was there before,
  the two fields it is computed from are the ones the entry had, and the \<open>Namespaces\<close> it
  had is overwritten. (In the witness the entry arrives with \<open>Namespace\<close> \<open>ns1\<close>,
  \<open>AdditionalNamespaces\<close> \<open>[ns2, ns3]\<close> and a stale \<open>Namespaces\<close>.)
\<close>

theorem SetDefaults_Namespaces:
  assumes "distinct (map fst (Maps c))"
  shows "(\<forall>(name, spec) \<in> set (Maps (SetDefaults c)).
            Namespaces spec = Namespace spec # AdditionalNamespaces spec)
         \<and> (\<forall>(name, spec) \<in> set (Maps c).
              (name, spec\<lparr>Namespaces := Namespace spec # AdditionalNamespaces spec\<rparr>)
                \<in> set (Maps (SetDefaults c)))"
proof
  show "\<forall>(name, spec) \<in> set (Maps (SetDefaults c)).
            Namespaces spec = Namespace spec # AdditionalNamespaces spec"
    by (auto simp: SetDefaults_closed [OF assms] withNamespaces_def)
  show "\<forall>(name, spec) \<in> set (Maps c).
              (name, spec\<lparr>Namespaces := Namespace spec # AdditionalNamespaces spec\<rparr>)
                \<in> set (Maps (SetDefaults c))"
  proof (cases "Maps c = []")
    case True
    then show ?thesis by simp
  next
    case False
    then have "derivedMaps c = Maps c" by (simp add: derivedMaps_def)
    then show ?thesis
      by (force simp: SetDefaults_closed [OF assms] withNamespaces_def)
  qed
qed

theorem SetDefaults_Namespaces_witness:
  "distinct (map fst (Maps namespacesExample))
   \<and> map (\<lambda>(name, spec). Namespaces spec) (Maps (SetDefaults namespacesExample)) =
       [[''ns1'', ''ns2'', ''ns3'']]"
proof -
  have d: "distinct (map fst (Maps namespacesExample))"
    by (simp add: namespacesExample_def)
  have m: "map (\<lambda>(name, spec). Namespaces spec) (Maps (SetDefaults namespacesExample)) =
       [[''ns1'', ''ns2'', ''ns3'']]"
    by (simp add: SetDefaults_def namespacesExample_def)
  from SetDefaults_Namespaces [OF d]
  have "\<forall>(name, spec) \<in> set (Maps (SetDefaults namespacesExample)).
            Namespaces spec = Namespace spec # AdditionalNamespaces spec" by blast
  then show ?thesis
    using d m by simp
qed

text \<open>
  Claim C9. The defaulting pass is idempotent: \<open>setDefaults (setDefaults c) = setDefaults c\<close>,
  as an equation between whole configurations (update maps and namespaces, external
  plugin endpoints, reviewer count, trigger URLs, the sig-mention and cherry-pick defaults,
  grace periods, and every field the pass does not touch). The two hypotheses say that
  the two maps the pass writes have distinct keys, as every Go map has.
\<close>

theorem setDefaults_idempotent:
  assumes "distinct (map fst (Maps (ConfigUpdater c)))"
    and "distinct (map fst (ExternalPlugins c))"
  shows "setDefaults (setDefaults c) = setDefaults c"
proof -
  let ?d = "c\<lparr>ConfigUpdater := SetDefaults (ConfigUpdater c),
       ExternalPlugins := map (\<lambda>(k, v). (k, map withEndpoint v)) (ExternalPlugins c),
       Blunderbuss := withReviewerCount (Blunderbuss c),
       Triggers := map withJoinOrgURL (Triggers c),
       SigMention := withSigMentionRegexp (SigMention c),
       CherryPickUnapproved := withCherryPickDefaults (CherryPickUnapproved c),
       RequireMatchingLabel := map withGracePeriod (RequireMatchingLabel c)\<rparr>"
  have once: "setDefaults c = ?d" by (rule setDefaults_closed [OF assms(2)])
  have d2: "distinct (map fst (ExternalPlugins ?d))"
    using assms(2) by (simp add: comp_def case_prod_beta)
  have "setDefaults ?d = ?d"
    unfolding setDefaults_closed [OF d2]
    by (simp add: SetDefaults_idem [OF assms(1)] withEndpoint_idem withReviewerCount_idem
        withJoinOrgURL_idem withSigMentionRegexp_idem withCherryPickDefaults_idem
        withGracePeriod_idem case_prod_beta comp_def)
  then show ?thesis by (simp only: once)
qed

theorem setDefaults_idempotent_witness:
  "distinct (map fst (Maps (ConfigUpdater defaultsExample)))
   \<and> distinct (map fst (ExternalPlugins defaultsExample))
   \<and> setDefaults (setDefaults defaultsExample) = setDefaults defaultsExample
   \<and> map (\<lambda>(repo, ps). (repo, map Endpoint ps)) (ExternalPlugins (setDefaults defaultsExample))
       = [(''kubernetes'', [''http://needs-rebase''])]
   \<and> map GracePeriod (RequireMatchingLabel (setDefaults defaultsExample)) = [''5s'']
   \<and> map JoinOrgURL (Triggers (setDefaults defaultsExample))
       = [''https://github.com/orgs/kubernetes/people'']"
proof -
  have d1: "distinct (map fst (Maps (ConfigUpdater defaultsExample)))"
    by (simp add: defaultsExample_def zeroConfiguration_def)
  have d2: "distinct (map fst (ExternalPlugins defaultsExample))"
    by (simp add: defaultsExample_def zeroConfiguration_def)
  have "setDefaults (setDefaults defaultsExample) = setDefaults defaultsExample"
    by (rule setDefaults_idempotent [OF d1 d2])
  moreover have "map (\<lambda>(repo, ps). (repo, map Endpoint ps))
                   (ExternalPlugins (setDefaults defaultsExample))
                 = [(''kubernetes'', [''http://needs-rebase''])]"
    by (simp add: setDefaults_closed [OF d2])
       (simp add: defaultsExample_def zeroConfiguration_def withEndpoint_def)
  moreover have "map GracePeriod (RequireMatchingLabel (setDefaults defaultsExample)) = [''5s'']"
    by (simp add: setDefaults_closed [OF d2])
       (simp add: defaultsExample_def zeroConfiguration_def withGracePeriod_def)
  moreover have "map JoinOrgURL (Triggers (setDefaults defaultsExample))
       = [''https://github.com/orgs/kubernetes/people'']"
    by (simp add: setDefaults_closed [OF d2])
       (simp add: defaultsExample_def zeroConfiguration_def withJoinOrgURL_def)
  ultimately show ?thesis using d1 d2 by simp
qed

section \<open>Properties of validation\<close>

lemma inner_dupes_fold:
  "fold (\<lambda>orgPlugin dupes. if repoPlugin = orgPlugin then dupes @ [repoPlugin] else dupes)
     orgConfig dupes
   = dupes @ filter (\<lambda>orgPlugin. repoPlugin = orgPlugin) orgConfig"
  by (induction orgConfig arbitrary: dupes) auto

lemma outer_dupes_fold:
  "fold (\<lambda>repoPlugin dupes.
           fold (\<lambda>orgPlugin dupes. if repoPlugin = orgPlugin then dupes @ [repoPlugin] else dupes)
             orgConfig dupes)
     repoConfig dupes
   = dupes @ sharedWithOrg repoConfig orgConfig"
  by (induction repoConfig arbitrary: dupes) (simp_all add: sharedWithOrg_def inner_dupes_fold)

lemma findDuplicatedPluginConfig_shared:
  "findDuplicatedPluginConfig repoConfig orgConfig = sharedWithOrg repoConfig orgConfig"
  using outer_dupes_fold [of orgConfig repoConfig "[]"]
  by (simp add: findDuplicatedPluginConfig_def)

lemma set_sharedWithOrg: "set (sharedWithOrg repoConfig orgConfig) = set repoConfig \<inter> set orgConfig"
  by (auto simp: sharedWithOrg_def)

lemma sharedWithOrg_empty:
  "sharedWithOrg repoConfig orgConfig = [] \<longleftrightarrow> set repoConfig \<inter> set orgConfig = {}"
  using set_sharedWithOrg [of repoConfig orgConfig] by (metis set_empty)

lemma unknown_inner_fold:
  "fold (\<lambda>plugin errors.
           if plugin \<notin> pluginHelp env then errors @ [''unknown plugin: '' @ plugin] else errors)
     configuration errors
   = errors @ map (\<lambda>plugin. ''unknown plugin: '' @ plugin)
                (filter (\<lambda>plugin. plugin \<notin> pluginHelp env) configuration)"
  by (induction configuration arbitrary: errors) auto

lemma unknown_fold:
  "fold (unknownStep env) ps errors = errors @ unknownPluginErrors env ps"
  by (induction ps arbitrary: errors)
     (auto simp: unknownStep_def unknownPluginErrors_def unknown_inner_fold)

lemma duplicatedStep_eq:
  "duplicatedStep plugins (repo, repoConfig) errors =
     errors @ (if containsSlash repo
                  \<and> sharedWithOrg repoConfig (lookup plugins (orgOf repo)) \<noteq> []
               then [duplicatedMessage ''plugins''
                       (sharedWithOrg repoConfig (lookup plugins (orgOf repo))) repo]
               else [])"
  by (simp add: duplicatedStep_def findDuplicatedPluginConfig_shared duplicatedMessage_def Let_def)

lemma duplicated_fold_gen:
  "fold (duplicatedStep plugins) ps errors =
     errors @ concat (map (\<lambda>(repo, repoConfig).
                    if containsSlash repo
                       \<and> sharedWithOrg repoConfig (lookup plugins (orgOf repo)) \<noteq> []
                    then [duplicatedMessage ''plugins''
                            (sharedWithOrg repoConfig (lookup plugins (orgOf repo))) repo]
                    else []) ps)"
proof (induction ps arbitrary: errors)
  case Nil
  then show ?case by simp
next
  case (Cons p ps)
  obtain repo repoConfig where p: "p = (repo, repoConfig)" by (cases p)
  show ?case
    unfolding p by (simp only: fold_simps duplicatedStep_eq Cons.IH) simp
qed

lemma duplicated_fold:
  "fold (duplicatedStep plugins) visited errors = errors @ duplicatedPluginErrors plugins visited"
  by (simp add: duplicated_fold_gen duplicatedPluginErrors_def)

lemma validatePlugins_joined:
  "validatePlugins env plugins =
     joined '' invalid plugin configuration:''
       (unknownPluginErrors env plugins
        @ duplicatedPluginErrors plugins (rangeOrder (rangeSeed env) plugins))"
  by (simp add: validatePlugins_def unknown_fold duplicated_fold joined_def Let_def)

text \<open>
  \<open>rangeOrder\<close> visits every entry once, whatever the numbers, and every order of the
  entries is the order of some numbers.
\<close>

lemma remove_nth_set:
  "i < length xs \<Longrightarrow> insert (xs ! i) (set (take i xs @ drop (Suc i) xs)) = set xs"
proof -
  assume "i < length xs"
  then have "xs = take i xs @ xs ! i # drop (Suc i) xs" by (rule id_take_nth_drop)
  then have "set xs = set (take i xs @ xs ! i # drop (Suc i) xs)" by simp
  then show ?thesis by simp
qed

lemma rangeOrder_set: "set (rangeOrder seed entries) = set entries"
proof (induction seed entries rule: rangeOrder.induct)
  case (1 entries)
  then show ?case by simp
next
  case (2 k seed)
  then show ?case by simp
next
  case (3 k seed entry entries)
  let ?xs = "entry # entries"
  let ?i = "k mod length ?xs"
  have i: "?i < length ?xs" by simp
  have "set (rangeOrder (k # seed) ?xs)
        = insert (?xs ! ?i) (set (rangeOrder seed (take ?i ?xs @ drop (Suc ?i) ?xs)))"
    by (simp add: Let_def)
  also have "\<dots> = insert (?xs ! ?i) (set (take ?i ?xs @ drop (Suc ?i) ?xs))"
    using "3.IH" [of ?i] by simp
  also have "\<dots> = set ?xs" using i by (rule remove_nth_set)
  finally show ?case .
qed

lemma rangeOrder_length: "length (rangeOrder seed entries) = length entries"
proof (induction seed entries rule: rangeOrder.induct)
  case (1 entries)
  then show ?case by simp
next
  case (2 k seed)
  then show ?case by simp
next
  case (3 k seed entry entries)
  let ?xs = "entry # entries"
  let ?i = "k mod length ?xs"
  have i: "?i < length ?xs" by simp
  have "length (rangeOrder (k # seed) ?xs)
        = Suc (length (rangeOrder seed (take ?i ?xs @ drop (Suc ?i) ?xs)))"
    by (simp add: Let_def)
  also have "\<dots> = Suc (length (take ?i ?xs @ drop (Suc ?i) ?xs))"
    using "3.IH" [of ?i] by simp
  also have "\<dots> = length ?xs" using i by simp
  finally show ?case .
qed

lemma rangeOrder_every_order:
  assumes "distinct xs" and "distinct ys" and "set ys = set xs"
  shows "\<exists>seed. rangeOrder seed xs = ys"
  using assms
proof (induction ys arbitrary: xs)
  case Nil
  then have "xs = []" by simp
  then have "rangeOrder [] xs = []" by simp
  then show ?case by blast
next
  case (Cons y ys)
  from Cons.prems(3) have "y \<in> set xs" by auto
  then obtain i where i: "i < length xs" "xs ! i = y"
    by (auto simp: in_set_conv_nth)
  let ?rest = "take i xs @ drop (Suc i) xs"
  have xs: "xs = take i xs @ y # drop (Suc i) xs"
    using id_take_nth_drop [OF i(1)] i(2) by simp
  have d: "distinct (take i xs @ y # drop (Suc i) xs)"
    using Cons.prems(1) xs by simp
  then have dr: "distinct ?rest" and yr: "y \<notin> set ?rest" by auto
  have "insert y (set ?rest) = set xs"
    using remove_nth_set [OF i(1)] i(2) by simp
  then have "insert y (set ?rest) = insert y (set ys)"
    using Cons.prems(3) by simp
  moreover have "y \<notin> set ys" using Cons.prems(2) by simp
  ultimately have s: "set ys = set ?rest" using yr by auto
  have dy: "distinct ys" using Cons.prems(2) by simp
  from Cons.IH [OF dr dy s] obtain seed where seed: "rangeOrder seed ?rest = ys" by blast
  obtain e es where e: "xs = e # es" using i(1) by (cases xs) auto
  have m: "i mod length (e # es) = i" using i(1) e by simp
  have "rangeOrder (i # seed) (e # es)
        = (e # es) ! i # rangeOrder seed (take i (e # es) @ drop (Suc i) (e # es))"
    by (simp only: rangeOrder.simps Let_def m)
  then have "rangeOrder (i # seed) xs = y # ys"
    using seed i(2) unfolding e by simp
  then show ?case by blast
qed

lemma externalStep_eq:
  "externalStep pluginMap (repo, plugins) errors =
     errors @ (if containsSlash repo
                  \<and> sharedWithOrg (map ExternalPlugin.Name plugins)
                       (map ExternalPlugin.Name (lookup pluginMap (orgOf repo))) \<noteq> []
               then [duplicatedMessage ''external plugins''
                       (sharedWithOrg (map ExternalPlugin.Name plugins)
                          (map ExternalPlugin.Name (lookup pluginMap (orgOf repo)))) repo]
               else [])"
  by (simp add: externalStep_def findDuplicatedPluginConfig_shared duplicatedMessage_def Let_def)

lemma external_fold_gen:
  "fold (externalStep pluginMap) ps errors =
     errors @ concat (map (\<lambda>(repo, plugins).
                    if containsSlash repo
                       \<and> sharedWithOrg (map ExternalPlugin.Name plugins)
                            (map ExternalPlugin.Name (lookup pluginMap (orgOf repo))) \<noteq> []
                    then [duplicatedMessage ''external plugins''
                            (sharedWithOrg (map ExternalPlugin.Name plugins)
                               (map ExternalPlugin.Name (lookup pluginMap (orgOf repo)))) repo]
                    else []) ps)"
proof (induction ps arbitrary: errors)
  case Nil
  then show ?case by simp
next
  case (Cons p ps)
  obtain repo plugins where p: "p = (repo, plugins)" by (cases p)
  show ?case
    unfolding p by (simp only: fold_simps externalStep_eq Cons.IH) simp
qed

lemma validateExternalPlugins_joined:
  "validateExternalPlugins pluginMap =
     joined ''invalid plugin configuration:'' (duplicatedExternalErrors pluginMap)"
  by (simp add: validateExternalPlugins_def external_fold_gen duplicatedExternalErrors_def
      joined_def Let_def)

lemma sublist_strings_Join: "x \<in> set xs \<Longrightarrow> sublist x (strings_Join xs sep)"
proof (induction xs sep rule: strings_Join.induct)
  case (1 sep)
  then show ?case by simp
next
  case (2 x' sep)
  then show ?case by simp
next
  case (3 x' y ys sep)
  show ?case
  proof (cases "x = x'")
    case True
    then show ?thesis by simp
  next
    case False
    with 3 have "sublist x (strings_Join (y # ys) sep)" by simp
    then have "sublist x ((x' @ sep) @ strings_Join (y # ys) sep)"
      by (rule sublist_order.order_trans) (rule sublist_append_leftI)
    then show ?thesis by simp
  qed
qed

lemma sublist_fmt_v: "x \<in> set xs \<Longrightarrow> sublist x (fmt_v xs)"
proof -
  assume "x \<in> set xs"
  then have "sublist x (strings_Join xs '' '')" by (rule sublist_strings_Join)
  also have "sublist (strings_Join xs '' '') (fmt_v xs)"
    unfolding fmt_v_def by (rule sublist_appendI)
  finally show ?thesis .
qed

lemma sublist_joined:
  "m \<in> set errors \<Longrightarrow> \<exists>e. joined header errors = Some e \<and> sublist m e"
proof -
  assume m: "m \<in> set errors"
  then have ne: "errors \<noteq> []" by auto
  have "sublist m (strings_Join errors [CHR 0x0A, CHR 0x09])"
    using m by (rule sublist_strings_Join)
  also have "sublist (strings_Join errors [CHR 0x0A, CHR 0x09])
               ((header @ [CHR 0x0A, CHR 0x09]) @ strings_Join errors [CHR 0x0A, CHR 0x09])"
    by (rule sublist_append_leftI)
  finally show ?thesis using ne by (simp add: joined_def)
qed

lemma sublist_duplicatedMessage:
  "sublist repo (duplicatedMessage kind dupes repo)"
  "sublist (orgOf repo) (duplicatedMessage kind dupes repo)"
  "plugin \<in> set dupes \<Longrightarrow> sublist plugin (duplicatedMessage kind dupes repo)"
proof -
  have "duplicatedMessage kind dupes repo =
          (kind @ '' '' @ fmt_v dupes @ '' are duplicated for '') @ repo @ ('' and '' @ orgOf repo)"
    by (simp add: duplicatedMessage_def)
  then show "sublist repo (duplicatedMessage kind dupes repo)"
    by (simp only: sublist_appendI)
  have "duplicatedMessage kind dupes repo =
          (kind @ '' '' @ fmt_v dupes @ '' are duplicated for '' @ repo @ '' and '') @ orgOf repo"
    by (simp add: duplicatedMessage_def)
  then show "sublist (orgOf repo) (duplicatedMessage kind dupes repo)"
    by (simp only: sublist_append_leftI)
  assume "plugin \<in> set dupes"
  then have "sublist plugin (fmt_v dupes)" by (rule sublist_fmt_v)
  also have "sublist (fmt_v dupes) (duplicatedMessage kind dupes repo)"
  proof -
    have "duplicatedMessage kind dupes repo =
          (kind @ '' '') @ fmt_v dupes @ ('' are duplicated for '' @ repo @ '' and '' @ orgOf repo)"
      by (simp add: duplicatedMessage_def)
    then show ?thesis by (simp only: sublist_appendI)
  qed
  finally show "sublist plugin (duplicatedMessage kind dupes repo)" .
qed

lemma lookup_member:
  "distinct (map fst m) \<Longrightarrow> (k, v) \<in> set m \<Longrightarrow> lookup m k = v"
  by (simp add: lookup_def)

lemma duplicatedPluginErrors_member:
  assumes "(repo, repoConfig) \<in> set visited" and "containsSlash repo"
    and "sharedWithOrg repoConfig (lookup plugins (orgOf repo)) \<noteq> []"
  shows "duplicatedMessage ''plugins'' (sharedWithOrg repoConfig (lookup plugins (orgOf repo))) repo
           \<in> set (duplicatedPluginErrors plugins visited)"
  using assms unfolding duplicatedPluginErrors_def by force

lemma Plugins_steps:
  "Plugins (stepBlunderbuss c) = Plugins c"
  "Plugins (stepSigMention c) = Plugins c"
  "Plugins (stepBranchRegexp c) = Plugins c"
  "Plugins (stepComment c) = Plugins c"
  by (simp_all add: stepBlunderbuss_def stepSigMention_def stepBranchRegexp_def stepComment_def)

lemma setDefaults_Plugins: "Plugins (setDefaults c) = Plugins c"
  unfolding setDefaults_steps by (simp add: Plugins_steps)

lemma compile_Plugins:
  "Plugins (fst (compileRegexpsAndDurations env pc)) = Plugins pc"
  by (simp add: compileRegexpsAndDurations_def Let_def split: sum.splits prod.splits)

lemma compile_ExternalPlugins:
  "ExternalPlugins (fst (compileRegexpsAndDurations env pc)) = ExternalPlugins pc"
  by (simp add: compileRegexpsAndDurations_def Let_def split: sum.splits prod.splits)

lemma lookup_map_values:
  "lookup (map (\<lambda>(k, v). (k, map g v)) m) k = map g (lookup m k)"
  by (induction m) (auto simp: lookup_def)

lemma Name_withEndpoint: "ExternalPlugin.Name (withEndpoint p) = ExternalPlugin.Name p"
  by (simp add: withEndpoint_def)

lemma lookup_map_values_beta:
  "lookup (map (\<lambda>p. (fst p, map g (snd p))) m) k = map g (lookup m k)"
  by (induction m) (auto simp: lookup_def)

lemma duplicatedExternalErrors_withEndpoint:
  "duplicatedExternalErrors (map (\<lambda>(k, v). (k, map withEndpoint v)) m)
   = duplicatedExternalErrors m"
proof -
  have n: "\<And>ps. map ExternalPlugin.Name (map withEndpoint ps) = map ExternalPlugin.Name ps"
    by (simp add: Name_withEndpoint)
  show ?thesis
    unfolding duplicatedExternalErrors_def case_prod_beta
    by (simp add: lookup_map_values_beta Name_withEndpoint comp_def cong: if_cong)
qed

lemma setDefaults_ExternalPlugins:
  "distinct (map fst (ExternalPlugins c)) \<Longrightarrow>
   ExternalPlugins (setDefaults c) = map (\<lambda>(k, v). (k, map withEndpoint v)) (ExternalPlugins c)"
  by (simp add: setDefaults_closed)

lemma Validate_failed_compilation:
  "snd (compileRegexpsAndDurations env (setDefaults c)) = Some e \<Longrightarrow>
   snd (Validate env c) = Some e"
  by (cases "compileRegexpsAndDurations env (setDefaults c)") (simp add: Validate_def Let_def)

lemma Validate_after_compilation:
  assumes "snd (compileRegexpsAndDurations env (setDefaults c)) = None"
    and "distinct (map fst (ExternalPlugins c))"
  shows "snd (Validate env c) =
     (case validatePlugins env (Plugins c) of
        Some e \<Rightarrow> Some e
      | None \<Rightarrow> validateExternalPlugins (ExternalPlugins c))"
proof -
  obtain c2 err where r: "compileRegexpsAndDurations env (setDefaults c) = (c2, err)"
    by (cases "compileRegexpsAndDurations env (setDefaults c)")
  have err: "err = None" using assms(1) r by simp
  have p: "Plugins c2 = Plugins c"
    using compile_Plugins [of env "setDefaults c"] r by (simp add: setDefaults_Plugins)
  have x: "ExternalPlugins c2 = map (\<lambda>(k, v). (k, map withEndpoint v)) (ExternalPlugins c)"
    using compile_ExternalPlugins [of env "setDefaults c"] r
    by (simp add: setDefaults_ExternalPlugins [OF assms(2)])
  have v: "validateExternalPlugins (ExternalPlugins c2) = validateExternalPlugins (ExternalPlugins c)"
    by (simp add: x validateExternalPlugins_joined duplicatedExternalErrors_withEndpoint)
  show ?thesis
    by (simp add: Validate_def Let_def r err p v split: option.splits)
qed

lemma Validate_plugin_error:
  assumes "snd (compileRegexpsAndDurations env (setDefaults c)) = None"
    and "validatePlugins env (Plugins c) = Some e"
  shows "snd (Validate env c) = Some e"
proof -
  obtain c2 err where r: "compileRegexpsAndDurations env (setDefaults c) = (c2, err)"
    by (cases "compileRegexpsAndDurations env (setDefaults c)")
  have err: "err = None" using assms(1) r by simp
  have p: "Plugins c2 = Plugins c"
    using compile_Plugins [of env "setDefaults c"] r by (simp add: setDefaults_Plugins)
  show ?thesis
    by (simp add: Validate_def Let_def r err p assms(2))
qed

lemma setDefaults_fields:
  "Heart (setDefaults c) = Heart c"
  "SigMention (setDefaults c) = withSigMentionRegexp (SigMention c)"
  "CherryPickUnapproved (setDefaults c) = withCherryPickDefaults (CherryPickUnapproved c)"
  "RequireMatchingLabel (setDefaults c) = map withGracePeriod (RequireMatchingLabel c)"
  unfolding setDefaults_steps stepCherryPick_closed stepSigMention_closed stepBlunderbuss_closed
  by (simp_all add: gracePeriodLoop_map)

lemma compile_SigMention_fails:
  "regexp_Compile env (SigMention.Regexp (SigMention pc)) = Inl e \<Longrightarrow>
   compileRegexpsAndDurations env pc = (pc, Some e)"
  by (simp add: compileRegexpsAndDurations_def)

lemma compile_BranchRegexp_fails:
  "regexp_Compile env (SigMention.Regexp (SigMention pc)) = Inr a \<Longrightarrow>
   regexp_Compile env (BranchRegexp (CherryPickUnapproved pc)) = Inl e \<Longrightarrow>
   snd (compileRegexpsAndDurations env pc) = Some e"
  by (simp add: compileRegexpsAndDurations_def)

lemma compile_CommentRegexp_fails:
  "regexp_Compile env (SigMention.Regexp (SigMention pc)) = Inr a \<Longrightarrow>
   regexp_Compile env (BranchRegexp (CherryPickUnapproved pc)) = Inr b \<Longrightarrow>
   regexp_Compile env (CommentRegexp (Heart pc)) = Inl e \<Longrightarrow>
   snd (compileRegexpsAndDurations env pc) = Some e"
  by (simp add: compileRegexpsAndDurations_def)

lemma compile_labels:
  "regexp_Compile env (SigMention.Regexp (SigMention pc)) = Inr a \<Longrightarrow>
   regexp_Compile env (BranchRegexp (CherryPickUnapproved pc)) = Inr b \<Longrightarrow>
   regexp_Compile env (CommentRegexp (Heart pc)) = Inr d \<Longrightarrow>
   snd (compileRegexpsAndDurations env pc) =
     snd (labelsLoop env [0..<length (RequireMatchingLabel pc)] (RequireMatchingLabel pc))"
  by (simp add: compileRegexpsAndDurations_def Let_def split: prod.splits)

lemma exampleEnv_simps:
  "regexp_Compile exampleEnv s =
     (if s = ''('' then Inl ''error parsing regexp: missing closing ): `(`''
      else Inr (CompiledRegexp s))"
  "time_ParseDuration exampleEnv s =
     (if s = ''5s'' then Inr 5000000000
      else Inl (''time: invalid duration '' @ [CHR 0x22] @ s @ [CHR 0x22]))"
  "strconv_Quote exampleEnv s = [CHR 0x22] @ s @ [CHR 0x22]"
  "pluginHelp exampleEnv = {''trigger'', ''lgtm''}"
  "rangeSeed exampleEnv = [1]"
  by (simp_all add: exampleEnv_def)

lemma zero_defaults:
  "SigMention.Regexp (withSigMentionRegexp (SigMention zeroConfiguration)) = defaultSigMentionRegexp"
  "BranchRegexp (withCherryPickDefaults (CherryPickUnapproved zeroConfiguration)) = ''^release-.*$''"
  "Heart zeroConfiguration = \<lparr>Adorees = [], CommentRegexp = '''', CommentRe = None\<rparr>"
  "RequireMatchingLabel zeroConfiguration = []"
  "ExternalPlugins zeroConfiguration = []"
  "Plugins zeroConfiguration = []"
  by (simp_all add: zeroConfiguration_def withSigMentionRegexp_def withCherryPickDefaults_def)

lemma defaultSigMentionRegexp_not_paren: "defaultSigMentionRegexp \<noteq> ''(''"
  by (simp add: defaultSigMentionRegexp_def)

lemma compile_duplicatedExample:
  "snd (compileRegexpsAndDurations exampleEnv (setDefaults duplicatedExample)) = None"
proof -
  let ?pc = "setDefaults duplicatedExample"
  have 1: "regexp_Compile exampleEnv (SigMention.Regexp (SigMention ?pc))
           = Inr (CompiledRegexp defaultSigMentionRegexp)"
    by (simp add: setDefaults_fields duplicatedExample_def zero_defaults exampleEnv_simps
        defaultSigMentionRegexp_not_paren)
  have 2: "regexp_Compile exampleEnv (BranchRegexp (CherryPickUnapproved ?pc))
           = Inr (CompiledRegexp ''^release-.*$'')"
    by (simp add: setDefaults_fields duplicatedExample_def zero_defaults exampleEnv_simps)
  have 3: "regexp_Compile exampleEnv (CommentRegexp (Heart ?pc)) = Inr (CompiledRegexp '''')"
    by (simp add: setDefaults_fields duplicatedExample_def zero_defaults exampleEnv_simps)
  have 4: "RequireMatchingLabel ?pc = []"
    by (simp add: setDefaults_fields duplicatedExample_def zero_defaults)
  show ?thesis
    by (simp add: compile_labels [OF 1 2 3] 4)
qed

text \<open>
  Claim C1 as amended. The claim says that, for every configuration in which a scope
  \<open>org/repo\<close> and the scope \<open>org\<close> list the same plugin, \<open>Validate\<close> returns an error naming
  the plugin and both scopes. \<open>Validate\<close> compiles the regular expressions and durations
  first and returns the error of that pass without looking at the plugins, so the
  statement is made for the configurations that compile: for each scope \<open>repo\<close> with a
  slash and each plugin that it shares with the scope \<open>org\<close> before the first slash,
  \<open>Validate\<close> returns an error that contains the message
  \<open>plugins [...] are duplicated for repo and org\<close>, with the plugin in the list between the
  brackets, and so contains the plugin and both scope strings. The first two
  hypotheses say that compilation succeeds and that the keys of the \<open>Plugins\<close> map are
  distinct, as the keys of a Go map are.
\<close>

theorem Validate_names_duplicated_plugin:
  assumes "snd (compileRegexpsAndDurations env (setDefaults c)) = None"
    and "distinct (map fst (Plugins c))"
    and "(repo, repoConfig) \<in> set (Plugins c)"
    and "(org, orgConfig) \<in> set (Plugins c)"
    and "containsSlash repo"
    and "org = orgOf repo"
    and "plugin \<in> set repoConfig"
    and "plugin \<in> set orgConfig"
  shows "\<exists>e dupes. snd (Validate env c) = Some e
           \<and> plugin \<in> set dupes
           \<and> sublist (''plugins '' @ fmt_v dupes @ '' are duplicated for '' @ repo @ '' and '' @ org) e
           \<and> sublist plugin e \<and> sublist repo e \<and> sublist org e"
proof -
  let ?dupes = "sharedWithOrg repoConfig (lookup (Plugins c) (orgOf repo))"
  let ?m = "duplicatedMessage ''plugins'' ?dupes repo"
  have lk: "lookup (Plugins c) (orgOf repo) = orgConfig"
    using assms(2,4,6) by (simp add: lookup_member)
  have mem: "plugin \<in> set ?dupes"
    using assms(7,8) by (simp add: lk set_sharedWithOrg)
  then have ne: "?dupes \<noteq> []" by auto
  have "(repo, repoConfig) \<in> set (rangeOrder (rangeSeed env) (Plugins c))"
    using assms(3) by (simp add: rangeOrder_set)
  then have "?m \<in> set (duplicatedPluginErrors (Plugins c) (rangeOrder (rangeSeed env) (Plugins c)))"
    using assms(5) ne by (rule duplicatedPluginErrors_member)
  then have "?m \<in> set (unknownPluginErrors env (Plugins c)
                        @ duplicatedPluginErrors (Plugins c) (rangeOrder (rangeSeed env) (Plugins c)))"
    by simp
  then obtain e where e: "validatePlugins env (Plugins c) = Some e" and sub: "sublist ?m e"
    unfolding validatePlugins_joined using sublist_joined by blast
  have v: "snd (Validate env c) = Some e"
    using assms(1) e by (rule Validate_plugin_error)
  have m: "?m = ''plugins '' @ fmt_v ?dupes @ '' are duplicated for '' @ repo @ '' and '' @ org"
    by (simp add: duplicatedMessage_def assms(6))
  have "sublist plugin e"
    using sublist_duplicatedMessage(3) [OF mem] sub by (rule sublist_order.order_trans)
  moreover have "sublist repo e"
    using sublist_duplicatedMessage(1) sub by (rule sublist_order.order_trans)
  moreover have "sublist org e"
    unfolding assms(6) using sublist_duplicatedMessage(2) sub by (rule sublist_order.order_trans)
  ultimately show ?thesis using v mem sub m by metis
qed

theorem Validate_names_duplicated_plugin_witness:
  "snd (compileRegexpsAndDurations exampleEnv (setDefaults duplicatedExample)) = None
   \<and> distinct (map fst (Plugins duplicatedExample))
   \<and> (''kubernetes/kubernetes'', [''trigger'', ''lgtm'']) \<in> set (Plugins duplicatedExample)
   \<and> (''kubernetes'', [''trigger'']) \<in> set (Plugins duplicatedExample)
   \<and> containsSlash ''kubernetes/kubernetes''
   \<and> ''kubernetes'' = orgOf ''kubernetes/kubernetes''
   \<and> (\<exists>e dupes. snd (Validate exampleEnv duplicatedExample) = Some e
           \<and> ''trigger'' \<in> set dupes
           \<and> sublist (''plugins '' @ fmt_v dupes
                      @ '' are duplicated for kubernetes/kubernetes and kubernetes'') e
           \<and> sublist ''trigger'' e \<and> sublist ''kubernetes/kubernetes'' e
           \<and> sublist ''kubernetes'' e)"
proof -
  have 1: "snd (compileRegexpsAndDurations exampleEnv (setDefaults duplicatedExample)) = None"
    by (rule compile_duplicatedExample)
  have 2: "distinct (map fst (Plugins duplicatedExample))"
    by (simp add: duplicatedExample_def)
  have 3: "(''kubernetes/kubernetes'', [''trigger'', ''lgtm'']) \<in> set (Plugins duplicatedExample)"
    by (simp add: duplicatedExample_def)
  have 4: "(''kubernetes'', [''trigger'']) \<in> set (Plugins duplicatedExample)"
    by (simp add: duplicatedExample_def)
  have 5: "containsSlash ''kubernetes/kubernetes''"
    by (simp add: containsSlash_def)
  have 6: "''kubernetes'' = orgOf ''kubernetes/kubernetes''"
    by (simp add: orgOf_def)
  have 7: "''trigger'' \<in> set [''trigger'', ''lgtm'']" by simp
  have 8: "''trigger'' \<in> set [''trigger'']" by simp
  from Validate_names_duplicated_plugin [OF 1 2 3 4 5 6 7 8]
  show ?thesis using 1 2 3 4 5 6 by simp
qed

text \<open>The end-to-end example of the specification, with the exact message.\<close>

lemma Validate_duplicatedExample:
  "snd (Validate exampleEnv duplicatedExample) =
     Some ('' invalid plugin configuration:'' @ [CHR 0x0A, CHR 0x09]
           @ ''plugins [trigger] are duplicated for kubernetes/kubernetes and kubernetes'')"
proof -
  have 3: "distinct (map fst (ExternalPlugins duplicatedExample))"
    by (simp add: duplicatedExample_def zero_defaults)
  have "validatePlugins exampleEnv (Plugins duplicatedExample) =
     Some ('' invalid plugin configuration:'' @ [CHR 0x0A, CHR 0x09]
           @ ''plugins [trigger] are duplicated for kubernetes/kubernetes and kubernetes'')"
    by (simp add: validatePlugins_joined duplicatedExample_def joined_def unknownPluginErrors_def
        duplicatedPluginErrors_def exampleEnv_simps containsSlash_def orgOf_def lookup_def
        sharedWithOrg_def duplicatedMessage_def fmt_v_def)
  then show ?thesis
    by (simp add: Validate_after_compilation [OF compile_duplicatedExample 3])
qed

text \<open>
  Claim C1 as stated fails at the configuration of the specification's example once the
  comment pattern of the heart plugin is \<open>(\<close>: both scopes list \<open>trigger\<close>, and \<open>Validate\<close>
  returns the error of the regular expression, which names neither the plugin nor a scope.
\<close>

theorem Validate_compilation_error_hides_duplicate:
  "(''kubernetes/kubernetes'', [''trigger'', ''lgtm'']) \<in> set (Plugins duplicatedBadRegexpExample)
   \<and> (''kubernetes'', [''trigger'']) \<in> set (Plugins duplicatedBadRegexpExample)
   \<and> snd (Validate exampleEnv duplicatedBadRegexpExample)
       = Some ''error parsing regexp: missing closing ): `(`''
   \<and> \<not> sublist ''trigger'' ''error parsing regexp: missing closing ): `(`''
   \<and> \<not> sublist ''kubernetes'' ''error parsing regexp: missing closing ): `(`''"
proof -
  let ?pc = "setDefaults duplicatedBadRegexpExample"
  have 1: "regexp_Compile exampleEnv (SigMention.Regexp (SigMention ?pc))
           = Inr (CompiledRegexp defaultSigMentionRegexp)"
    by (simp add: setDefaults_fields duplicatedBadRegexpExample_def duplicatedExample_def
        zero_defaults exampleEnv_simps defaultSigMentionRegexp_not_paren)
  have 2: "regexp_Compile exampleEnv (BranchRegexp (CherryPickUnapproved ?pc))
           = Inr (CompiledRegexp ''^release-.*$'')"
    by (simp add: setDefaults_fields duplicatedBadRegexpExample_def duplicatedExample_def
        zero_defaults exampleEnv_simps)
  have 3: "regexp_Compile exampleEnv (CommentRegexp (Heart ?pc))
           = Inl ''error parsing regexp: missing closing ): `(`''"
    by (simp add: setDefaults_fields duplicatedBadRegexpExample_def duplicatedExample_def
        exampleEnv_simps)
  have "snd (Validate exampleEnv duplicatedBadRegexpExample)
       = Some ''error parsing regexp: missing closing ): `(`''"
    by (rule Validate_failed_compilation) (rule compile_CommentRegexp_fails [OF 1 2 3])
  moreover have "\<not> sublist ''trigger'' ''error parsing regexp: missing closing ): `(`''"
    by (simp add: sublist_code)
  moreover have "\<not> sublist ''kubernetes'' ''error parsing regexp: missing closing ): `(`''"
    by (simp add: sublist_code)
  ultimately show ?thesis
    by (simp add: duplicatedBadRegexpExample_def duplicatedExample_def)
qed

lemma compile_exampleEnv:
  assumes "SigMention c = SigMention zeroConfiguration"
    and "CherryPickUnapproved c = CherryPickUnapproved zeroConfiguration"
    and "Heart c = Heart zeroConfiguration"
    and "RequireMatchingLabel c = []"
  shows "snd (compileRegexpsAndDurations exampleEnv (setDefaults c)) = None"
proof -
  let ?pc = "setDefaults c"
  have 1: "regexp_Compile exampleEnv (SigMention.Regexp (SigMention ?pc))
           = Inr (CompiledRegexp defaultSigMentionRegexp)"
    by (simp add: setDefaults_fields assms zero_defaults exampleEnv_simps
        defaultSigMentionRegexp_not_paren)
  have 2: "regexp_Compile exampleEnv (BranchRegexp (CherryPickUnapproved ?pc))
           = Inr (CompiledRegexp ''^release-.*$'')"
    by (simp add: setDefaults_fields assms zero_defaults exampleEnv_simps)
  have 3: "regexp_Compile exampleEnv (CommentRegexp (Heart ?pc)) = Inr (CompiledRegexp '''')"
    by (simp add: setDefaults_fields assms zero_defaults exampleEnv_simps)
  have 4: "RequireMatchingLabel ?pc = []"
    by (simp add: setDefaults_fields assms)
  show ?thesis
    by (simp add: compile_labels [OF 1 2 3] 4)
qed

lemma compile_bothDuplicatedExample:
  "snd (compileRegexpsAndDurations exampleEnv (setDefaults bothDuplicatedExample)) = None"
  by (rule compile_exampleEnv)
     (simp_all add: bothDuplicatedExample_def duplicatedExample_def zero_defaults)

lemma compile_unknownAndDuplicatedExample:
  "snd (compileRegexpsAndDurations exampleEnv (setDefaults unknownAndDuplicatedExample)) = None"
  by (rule compile_exampleEnv) (simp_all add: unknownAndDuplicatedExample_def zero_defaults)

lemma compile_repeatedExample:
  "snd (compileRegexpsAndDurations exampleEnv (setDefaults repeatedExample)) = None"
  by (rule compile_exampleEnv) (simp_all add: repeatedExample_def zero_defaults)

text \<open>
  Claim C2 says that the errors of plugin-name validation (step 3) and of external-plugin
  validation (step 4) are joined into one error, so that a configuration with a built-in
  duplicate and an external duplicate yields one error mentioning both. \<open>Validate\<close> returns
  as soon as \<open>validatePlugins\<close> reports an error: at the configuration below the result is
  the message of step 3 alone, although \<open>validateExternalPlugins\<close> has a message for the
  same configuration.
\<close>

theorem Validate_returns_after_plugin_errors:
  "snd (Validate exampleEnv bothDuplicatedExample) =
     Some ('' invalid plugin configuration:'' @ [CHR 0x0A, CHR 0x09]
           @ ''plugins [trigger] are duplicated for kubernetes/kubernetes and kubernetes'')
   \<and> validateExternalPlugins (ExternalPlugins bothDuplicatedExample) =
     Some (''invalid plugin configuration:'' @ [CHR 0x0A, CHR 0x09]
           @ ''external plugins [needs-rebase] are duplicated for kubernetes/kubernetes and kubernetes'')
   \<and> \<not> sublist ''needs-rebase''
         ('' invalid plugin configuration:'' @ [CHR 0x0A, CHR 0x09]
          @ ''plugins [trigger] are duplicated for kubernetes/kubernetes and kubernetes'')"
proof -
  have d: "distinct (map fst (ExternalPlugins bothDuplicatedExample))"
    by (simp add: bothDuplicatedExample_def)
  have p: "validatePlugins exampleEnv (Plugins bothDuplicatedExample) =
     Some ('' invalid plugin configuration:'' @ [CHR 0x0A, CHR 0x09]
           @ ''plugins [trigger] are duplicated for kubernetes/kubernetes and kubernetes'')"
    by (simp add: validatePlugins_joined bothDuplicatedExample_def duplicatedExample_def
        joined_def unknownPluginErrors_def
        duplicatedPluginErrors_def exampleEnv_simps containsSlash_def orgOf_def lookup_def
        sharedWithOrg_def duplicatedMessage_def fmt_v_def)
  have v: "snd (Validate exampleEnv bothDuplicatedExample) =
     Some ('' invalid plugin configuration:'' @ [CHR 0x0A, CHR 0x09]
           @ ''plugins [trigger] are duplicated for kubernetes/kubernetes and kubernetes'')"
    by (simp add: Validate_after_compilation [OF compile_bothDuplicatedExample d] p)
  have x: "validateExternalPlugins (ExternalPlugins bothDuplicatedExample) =
     Some (''invalid plugin configuration:'' @ [CHR 0x0A, CHR 0x09]
           @ ''external plugins [needs-rebase] are duplicated for kubernetes/kubernetes and kubernetes'')"
    by (simp add: validateExternalPlugins_joined bothDuplicatedExample_def joined_def
        duplicatedExternalErrors_def containsSlash_def orgOf_def lookup_def
        sharedWithOrg_def duplicatedMessage_def fmt_v_def)
  have n: "\<not> sublist ''needs-rebase''
         ('' invalid plugin configuration:'' @ [CHR 0x0A, CHR 0x09]
          @ ''plugins [trigger] are duplicated for kubernetes/kubernetes and kubernetes'')"
    by (simp add: sublist_code)
  show ?thesis using v x n by blast
qed

text \<open>
  Claim C2 as amended. When compilation succeeds, the errors that plugin-name validation
  records (one for every unknown plugin, one for every scope that repeats a plugin of its
  organisation) are joined into one error of several lines, and \<open>Validate\<close> returns it when
  there is at least one; only when there is none are the errors of external-plugin
  validation joined and returned; with no error in either step the result is nil. The
  lines for the unknown plugins come first, in the order of the first loop over the map,
  and the lines for the duplicates after them, in the order of the second loop.
\<close>

theorem Validate_joins_errors_of_one_step:
  assumes "snd (compileRegexpsAndDurations env (setDefaults c)) = None"
    and "distinct (map fst (ExternalPlugins c))"
  shows "snd (Validate env c) =
     (let errors3 = unknownPluginErrors env (Plugins c)
                    @ duplicatedPluginErrors (Plugins c) (rangeOrder (rangeSeed env) (Plugins c));
          errors4 = duplicatedExternalErrors (ExternalPlugins c)
      in if errors3 \<noteq> []
         then Some ('' invalid plugin configuration:'' @ [CHR 0x0A, CHR 0x09]
                    @ strings_Join errors3 [CHR 0x0A, CHR 0x09])
         else if errors4 \<noteq> []
         then Some (''invalid plugin configuration:'' @ [CHR 0x0A, CHR 0x09]
                    @ strings_Join errors4 [CHR 0x0A, CHR 0x09])
         else None)"
  unfolding Validate_after_compilation [OF assms] validatePlugins_joined
    validateExternalPlugins_joined joined_def Let_def
  by simp

theorem Validate_joins_errors_of_one_step_witness:
  "snd (compileRegexpsAndDurations exampleEnv (setDefaults unknownAndDuplicatedExample)) = None
   \<and> distinct (map fst (ExternalPlugins unknownAndDuplicatedExample))
   \<and> snd (Validate exampleEnv unknownAndDuplicatedExample) =
       Some ('' invalid plugin configuration:'' @ [CHR 0x0A, CHR 0x09]
             @ ''unknown plugin: welcome'' @ [CHR 0x0A, CHR 0x09]
             @ ''plugins [trigger] are duplicated for kubernetes/kubernetes and kubernetes'')"
proof -
  have d: "distinct (map fst (ExternalPlugins unknownAndDuplicatedExample))"
    by (simp add: unknownAndDuplicatedExample_def zero_defaults)
  have u: "unknownPluginErrors exampleEnv (Plugins unknownAndDuplicatedExample)
           = [''unknown plugin: welcome'']"
    by (simp add: unknownAndDuplicatedExample_def unknownPluginErrors_def exampleEnv_simps)
  have p: "duplicatedPluginErrors (Plugins unknownAndDuplicatedExample)
             (rangeOrder (rangeSeed exampleEnv) (Plugins unknownAndDuplicatedExample))
           = [''plugins [trigger] are duplicated for kubernetes/kubernetes and kubernetes'']"
    by (simp add: unknownAndDuplicatedExample_def duplicatedPluginErrors_def exampleEnv_simps
        containsSlash_def
        orgOf_def lookup_def sharedWithOrg_def duplicatedMessage_def fmt_v_def)
  show ?thesis
    using Validate_joins_errors_of_one_step [OF compile_unknownAndDuplicatedExample d]
      compile_unknownAndDuplicatedExample d
    by (simp add: u p)
qed

lemma orgOf_differs: "containsSlash repo \<Longrightarrow> orgOf repo \<noteq> repo"
proof
  assume s: "containsSlash repo" and e: "orgOf repo = repo"
  have "\<forall>ch \<in> set (orgOf repo). ch \<noteq> CHR ''/''"
    unfolding orgOf_def by (auto dest: set_takeWhileD)
  with s e show False by (auto simp: containsSlash_def)
qed

lemma duplicatedPluginErrors_empty:
  "duplicatedPluginErrors plugins visited = [] \<longleftrightarrow>
   (\<forall>(repo, repoConfig) \<in> set visited.
      containsSlash repo \<longrightarrow> set repoConfig \<inter> set (lookup plugins (orgOf repo)) = {})"
proof -
  have "duplicatedPluginErrors plugins visited = [] \<longleftrightarrow>
        (\<forall>(repo, repoConfig) \<in> set visited.
           containsSlash repo \<longrightarrow> sharedWithOrg repoConfig (lookup plugins (orgOf repo)) = [])"
    unfolding duplicatedPluginErrors_def by (auto split: if_splits)
  then show ?thesis by (simp add: sharedWithOrg_empty)
qed

lemma duplicatedExternalErrors_empty:
  "duplicatedExternalErrors pluginMap = [] \<longleftrightarrow>
   (\<forall>(repo, plugins) \<in> set pluginMap.
      containsSlash repo \<longrightarrow>
      ExternalPlugin.Name ` set plugins
        \<inter> ExternalPlugin.Name ` set (lookup pluginMap (orgOf repo)) = {})"
proof -
  have "duplicatedExternalErrors pluginMap = [] \<longleftrightarrow>
        (\<forall>(repo, plugins) \<in> set pluginMap.
           containsSlash repo \<longrightarrow>
           sharedWithOrg (map ExternalPlugin.Name plugins)
             (map ExternalPlugin.Name (lookup pluginMap (orgOf repo))) = [])"
    unfolding duplicatedExternalErrors_def by (auto split: if_splits)
  then show ?thesis by (simp add: sharedWithOrg_empty)
qed

lemma unknownPluginErrors_empty:
  "unknownPluginErrors env plugins = [] \<longleftrightarrow>
   (\<forall>(repo, configuration) \<in> set plugins. set configuration \<subseteq> pluginHelp env)"
  unfolding unknownPluginErrors_def
  by (fastforce simp: filter_empty_conv)

text \<open>
  Claim C10. The duplicate check compares the list of a scope \<open>org/repo\<close> with the list of
  its organisation and with nothing else, never with itself (the organisation's key has
  no slash). \<open>validatePlugins\<close> records no duplicate error, in whatever order its loop
  visits the map, exactly when no scope with a slash
  shares a name with the scope of its organisation, and \<open>validateExternalPlugins\<close> returns
  nil under the same condition on the names of the external plugins; how often a name
  occurs inside one list plays no role. So a configuration that compiles, uses registered
  plugins only and repeats names only inside single scopes passes \<open>Validate\<close>. (In the
  witness \<open>trigger\<close>, \<open>lgtm\<close> and the external plugin \<open>needs-rebase\<close> each occur twice in
  one list.)
\<close>

theorem repetition_inside_one_scope_is_no_duplicate:
  "(containsSlash repo \<longrightarrow> orgOf repo \<noteq> repo)
   \<and> (fold (duplicatedStep plugins) (rangeOrder seed plugins) errors = errors \<longleftrightarrow>
        (\<forall>(repo, repoConfig) \<in> set plugins.
           containsSlash repo \<longrightarrow> set repoConfig \<inter> set (lookup plugins (orgOf repo)) = {}))
   \<and> (validateExternalPlugins pluginMap = None \<longleftrightarrow>
        (\<forall>(repo, ps) \<in> set pluginMap.
           containsSlash repo \<longrightarrow>
           ExternalPlugin.Name ` set ps
             \<inter> ExternalPlugin.Name ` set (lookup pluginMap (orgOf repo)) = {}))
   \<and> (snd (compileRegexpsAndDurations env (setDefaults c)) = None
        \<and> distinct (map fst (ExternalPlugins c))
        \<and> (\<forall>(repo, configuration) \<in> set (Plugins c). set configuration \<subseteq> pluginHelp env)
        \<and> (\<forall>(repo, repoConfig) \<in> set (Plugins c).
             containsSlash repo \<longrightarrow>
             set repoConfig \<inter> set (lookup (Plugins c) (orgOf repo)) = {})
        \<and> (\<forall>(repo, ps) \<in> set (ExternalPlugins c).
             containsSlash repo \<longrightarrow>
             ExternalPlugin.Name ` set ps
               \<inter> ExternalPlugin.Name ` set (lookup (ExternalPlugins c) (orgOf repo)) = {})
        \<longrightarrow> snd (Validate env c) = None)"
proof (intro conjI impI)
  assume "containsSlash repo"
  then show "orgOf repo \<noteq> repo" by (rule orgOf_differs)
next
  show "fold (duplicatedStep plugins) (rangeOrder seed plugins) errors = errors \<longleftrightarrow>
        (\<forall>(repo, repoConfig) \<in> set plugins.
           containsSlash repo \<longrightarrow> set repoConfig \<inter> set (lookup plugins (orgOf repo)) = {})"
    by (simp add: duplicated_fold duplicatedPluginErrors_empty rangeOrder_set)
next
  show "validateExternalPlugins pluginMap = None \<longleftrightarrow>
        (\<forall>(repo, ps) \<in> set pluginMap.
           containsSlash repo \<longrightarrow>
           ExternalPlugin.Name ` set ps
             \<inter> ExternalPlugin.Name ` set (lookup pluginMap (orgOf repo)) = {})"
    by (simp add: validateExternalPlugins_joined joined_def duplicatedExternalErrors_empty)
next
  assume a: "snd (compileRegexpsAndDurations env (setDefaults c)) = None
        \<and> distinct (map fst (ExternalPlugins c))
        \<and> (\<forall>(repo, configuration) \<in> set (Plugins c). set configuration \<subseteq> pluginHelp env)
        \<and> (\<forall>(repo, repoConfig) \<in> set (Plugins c).
             containsSlash repo \<longrightarrow>
             set repoConfig \<inter> set (lookup (Plugins c) (orgOf repo)) = {})
        \<and> (\<forall>(repo, ps) \<in> set (ExternalPlugins c).
             containsSlash repo \<longrightarrow>
             ExternalPlugin.Name ` set ps
               \<inter> ExternalPlugin.Name ` set (lookup (ExternalPlugins c) (orgOf repo)) = {})"
  then have u: "unknownPluginErrors env (Plugins c) = []"
    by (simp add: unknownPluginErrors_empty)
  from a have p: "duplicatedPluginErrors (Plugins c) (rangeOrder (rangeSeed env) (Plugins c)) = []"
    by (simp add: duplicatedPluginErrors_empty rangeOrder_set)
  from a have x: "duplicatedExternalErrors (ExternalPlugins c) = []"
    by (simp add: duplicatedExternalErrors_empty)
  from a have v: "snd (Validate env c) =
     (case validatePlugins env (Plugins c) of
        Some e \<Rightarrow> Some e
      | None \<Rightarrow> validateExternalPlugins (ExternalPlugins c))"
    by (simp add: Validate_after_compilation)
  show "snd (Validate env c) = None"
    by (simp add: v validatePlugins_joined validateExternalPlugins_joined joined_def u p x)
qed

theorem repetition_inside_one_scope_is_no_duplicate_witness:
  "containsSlash ''kubernetes/kubernetes''
   \<and> orgOf ''kubernetes/kubernetes'' \<noteq> ''kubernetes/kubernetes''
   \<and> Plugins repeatedExample =
       [(''kubernetes'', [''trigger'', ''trigger'']),
        (''kubernetes/kubernetes'', [''lgtm'', ''lgtm''])]
   \<and> map (\<lambda>(repo, ps). (repo, map ExternalPlugin.Name ps)) (ExternalPlugins repeatedExample) =
       [(''kubernetes/kubernetes'', [''needs-rebase'', ''needs-rebase''])]
   \<and> rangeOrder [1] (Plugins repeatedExample) =
       [(''kubernetes/kubernetes'', [''lgtm'', ''lgtm'']),
        (''kubernetes'', [''trigger'', ''trigger''])]
   \<and> fold (duplicatedStep (Plugins repeatedExample)) (rangeOrder [1] (Plugins repeatedExample)) []
       = []
   \<and> validateExternalPlugins (ExternalPlugins repeatedExample) = None
   \<and> snd (Validate exampleEnv repeatedExample) = None"
proof -
  note t = repetition_inside_one_scope_is_no_duplicate
    [of "''kubernetes/kubernetes''" "Plugins repeatedExample" "[1]" "[]"
        "ExternalPlugins repeatedExample" exampleEnv repeatedExample]
  have s: "containsSlash ''kubernetes/kubernetes''" "\<not> containsSlash ''kubernetes''"
    by (simp_all add: containsSlash_def)
  have o: "orgOf ''kubernetes/kubernetes'' = ''kubernetes''"
    by (simp add: orgOf_def)
  have P: "Plugins repeatedExample =
       [(''kubernetes'', [''trigger'', ''trigger'']),
        (''kubernetes/kubernetes'', [''lgtm'', ''lgtm''])]"
    by (simp add: repeatedExample_def)
  have X: "ExternalPlugins repeatedExample =
          [(''kubernetes/kubernetes'',
            [\<lparr>ExternalPlugin.Name = ''needs-rebase'', Endpoint = '''', Events = []\<rparr>,
             \<lparr>ExternalPlugin.Name = ''needs-rebase'', Endpoint = '''', Events = []\<rparr>])]"
    by (simp add: repeatedExample_def)
  have h1: "\<forall>(repo, repoConfig) \<in> set (Plugins repeatedExample).
           containsSlash repo \<longrightarrow>
           set repoConfig \<inter> set (lookup (Plugins repeatedExample) (orgOf repo)) = {}"
    by (simp add: P s o lookup_def)
  have h2: "\<forall>(repo, ps) \<in> set (ExternalPlugins repeatedExample).
           containsSlash repo \<longrightarrow>
           ExternalPlugin.Name ` set ps
             \<inter> ExternalPlugin.Name ` set (lookup (ExternalPlugins repeatedExample) (orgOf repo)) = {}"
    by (simp add: X s o lookup_def)
  have h3: "\<forall>(repo, configuration) \<in> set (Plugins repeatedExample).
              set configuration \<subseteq> pluginHelp exampleEnv"
    by (simp add: P exampleEnv_simps)
  have h4: "distinct (map fst (ExternalPlugins repeatedExample))"
    by (simp add: X)
  from t s(1) have "orgOf ''kubernetes/kubernetes'' \<noteq> ''kubernetes/kubernetes''" by blast
  moreover from t h1
  have "fold (duplicatedStep (Plugins repeatedExample)) (rangeOrder [1] (Plugins repeatedExample)) []
        = []"
    by blast
  moreover have "rangeOrder [1] (Plugins repeatedExample) =
       [(''kubernetes/kubernetes'', [''lgtm'', ''lgtm'']),
        (''kubernetes'', [''trigger'', ''trigger''])]"
    by (simp add: P)
  moreover from t h2 have "validateExternalPlugins (ExternalPlugins repeatedExample) = None"
    by blast
  moreover from t compile_repeatedExample h1 h2 h3 h4
  have "snd (Validate exampleEnv repeatedExample) = None"
    by blast
  ultimately show ?thesis using s(1) P by (simp add: X)
qed

text \<open>
  The two loops of \<open>validatePlugins\<close> need not visit the map in the same order: here the
  first loop visits repository \<open>a\<close> before repository \<open>b\<close>, and the second loop starts at
  \<open>b\<close>.
\<close>

lemma validatePlugins_two_orders:
  "validatePlugins (exampleEnv\<lparr>rangeSeed := [2]\<rparr>) twoReposPlugins =
     Some ('' invalid plugin configuration:'' @ [CHR 0x0A, CHR 0x09]
           @ ''unknown plugin: welcome'' @ [CHR 0x0A, CHR 0x09]
           @ ''unknown plugin: hello'' @ [CHR 0x0A, CHR 0x09]
           @ ''plugins [trigger] are duplicated for kubernetes/b and kubernetes''
           @ [CHR 0x0A, CHR 0x09]
           @ ''plugins [trigger] are duplicated for kubernetes/a and kubernetes'')"
  by (simp add: validatePlugins_joined twoReposPlugins_def joined_def unknownPluginErrors_def
      duplicatedPluginErrors_def exampleEnv_simps containsSlash_def orgOf_def lookup_def
      sharedWithOrg_def duplicatedMessage_def fmt_v_def)

text \<open>
  Go visits the entries of a map in an order that it does not specify and that can change
  from one loop to the next. The messages that the validators record do not depend on it:
  two lists with the same entries and the same lookups give the same set of messages,
  whatever the order of the second loop.
\<close>

lemma recorded_errors_do_not_depend_on_order:
  assumes "set ps' = set ps" and "map_of ps' = map_of ps"
    and "set xs' = set xs" and "map_of xs' = map_of xs"
  shows "set (unknownPluginErrors env ps') = set (unknownPluginErrors env ps)
         \<and> set (duplicatedPluginErrors ps' (rangeOrder seed' ps'))
             = set (duplicatedPluginErrors ps (rangeOrder seed ps))
         \<and> set (duplicatedExternalErrors xs') = set (duplicatedExternalErrors xs)"
proof -
  have l: "lookup ps' = lookup ps" "lookup xs' = lookup xs"
    using assms(2,4) by (auto simp: lookup_def fun_eq_iff)
  show ?thesis
    unfolding unknownPluginErrors_def duplicatedPluginErrors_def duplicatedExternalErrors_def
    by (simp add: l assms(1,3) rangeOrder_set)
qed

section \<open>Properties of the compilation pass\<close>

lemma labelsLoop_tasks:
  "\<forall>i \<in> set is. i < length rs \<Longrightarrow>
   snd (labelsLoop env is rs) =
     firstError (map (taskError env)
       (concat (map (\<lambda>i. [LabelRegexp (RequireMatchingLabel.Regexp (rs ! i)),
                            GraceDuration (GracePeriod (rs ! i))]) is)))"
proof (induction "is" arbitrary: rs)
  case Nil
  then show ?case by simp
next
  case (Cons i "is")
  then have i: "i < length rs" by simp
  show ?case
  proof (cases "regexp_Compile env (RequireMatchingLabel.Regexp (rs ! i))")
    case (Inl err)
    then show ?thesis by simp
  next
    case (Inr re)
    let ?rs1 = "rs[i := (rs ! i)\<lparr>RequireMatchingLabel.Re := Some re\<rparr>]"
    have g1: "GracePeriod (?rs1 ! i) = GracePeriod (rs ! i)" using i by simp
    show ?thesis
    proof (cases "time_ParseDuration env (GracePeriod (rs ! i))")
      case (Inl err)
      then show ?thesis using Inr g1 by (simp add: Let_def)
    next
      case dur: (Inr dur)
      let ?rs2 = "?rs1[i := (?rs1 ! i)\<lparr>GracePeriodDuration := dur\<rparr>]"
      have len: "\<forall>j \<in> set is. j < length ?rs2" using Cons.prems by simp
      have same: "\<And>j. j < length rs \<Longrightarrow>
                    RequireMatchingLabel.Regexp (?rs2 ! j) = RequireMatchingLabel.Regexp (rs ! j)
                    \<and> GracePeriod (?rs2 ! j) = GracePeriod (rs ! j)"
        using i by (simp add: nth_list_update)
      have m: "map (\<lambda>j. [LabelRegexp (RequireMatchingLabel.Regexp (?rs2 ! j)),
                          GraceDuration (GracePeriod (?rs2 ! j))]) is
             = map (\<lambda>j. [LabelRegexp (RequireMatchingLabel.Regexp (rs ! j)),
                          GraceDuration (GracePeriod (rs ! j))]) is"
        using Cons.prems same by (intro map_cong) auto
      have step: "snd (labelsLoop env (i # is) rs) = snd (labelsLoop env is ?rs2)"
        using Inr dur g1 by (simp add: Let_def)
      have ih: "snd (labelsLoop env is ?rs2) = firstError (map (taskError env)
          (concat (map (\<lambda>j. [LabelRegexp (RequireMatchingLabel.Regexp (?rs2 ! j)),
                               GraceDuration (GracePeriod (?rs2 ! j))]) is)))"
        by (rule Cons.IH [OF len])
      have rhs: "firstError (map (taskError env)
          (concat (map (\<lambda>j. [LabelRegexp (RequireMatchingLabel.Regexp (rs ! j)),
                               GraceDuration (GracePeriod (rs ! j))]) (i # is))))
          = firstError (map (taskError env)
          (concat (map (\<lambda>j. [LabelRegexp (RequireMatchingLabel.Regexp (rs ! j)),
                               GraceDuration (GracePeriod (rs ! j))]) is)))"
        using Inr dur by simp
      show ?thesis by (simp only: step ih m rhs)
    qed
  qed
qed

lemma labelsLoop_all:
  "snd (labelsLoop env [0..<length rs] rs) =
     firstError (map (taskError env)
       (concat (map (\<lambda>r. [LabelRegexp (RequireMatchingLabel.Regexp r),
                            GraceDuration (GracePeriod r)]) rs)))"
proof -
  have "map (\<lambda>i. [LabelRegexp (RequireMatchingLabel.Regexp (rs ! i)),
                   GraceDuration (GracePeriod (rs ! i))]) [0..<length rs]
        = map (\<lambda>r. [LabelRegexp (RequireMatchingLabel.Regexp r),
                      GraceDuration (GracePeriod r)]) rs"
    by (rule nth_equalityI) simp_all
  then show ?thesis by (simp add: labelsLoop_tasks)
qed

text \<open>
  The pass compiles exactly the strings of \<open>compileTasks\<close>, in that order, and returns the
  error of the first one that fails; what it returns for each kind of string is
  \<open>taskError\<close>.
\<close>

lemma compileRegexpsAndDurations_first_failure:
  "snd (compileRegexpsAndDurations env pc) = firstError (map (taskError env) (compileTasks pc))"
proof (cases "regexp_Compile env (SigMention.Regexp (SigMention pc))")
  case (Inl e)
  then show ?thesis by (simp add: compile_SigMention_fails compileTasks_def)
next
  case a: (Inr a)
  show ?thesis
  proof (cases "regexp_Compile env (BranchRegexp (CherryPickUnapproved pc))")
    case (Inl e)
    then show ?thesis using a by (simp add: compile_BranchRegexp_fails compileTasks_def)
  next
    case b: (Inr b)
    show ?thesis
    proof (cases "regexp_Compile env (CommentRegexp (Heart pc))")
      case (Inl e)
      then show ?thesis using a b by (simp add: compile_CommentRegexp_fails compileTasks_def)
    next
      case (Inr d)
      then show ?thesis
        using a b by (simp add: compile_labels labelsLoop_all compileTasks_def)
    qed
  qed
qed

text \<open>
  Claim C3 says that the pass compiles \<open>SigMention.Regexp\<close>,
  \<open>CherryPickUnapproved.BranchRegexp\<close>, \<open>Heart.CommentRegexp\<close> and then, entry by entry, the
  pattern and the grace period of \<open>RequireMatchingLabel\<close>, stopping at the first failure,
  and that every failure, those of the first three included, returns an error naming the
  offending string and the field it came from. The order and the stop at the first
  failure hold (\<open>compileRegexpsAndDurations_first_failure\<close>). The errors of the entries of
  \<open>RequireMatchingLabel\<close> are wrapped in a message that says which kind of field failed and
  quotes the string; the errors of the first three are returned as \<open>regexp.Compile\<close> made
  them. With the pattern \<open>(\<close> as \<open>Heart.CommentRegexp\<close> the error is the bare message of
  the library; with the same pattern in an entry of \<open>RequireMatchingLabel\<close> it is the
  wrapped one.
\<close>

theorem compile_error_of_CommentRegexp_is_bare:
  "snd (compileRegexpsAndDurations exampleEnv (setDefaults badCommentRegexpExample))
     = Some ''error parsing regexp: missing closing ): `(`''
   \<and> snd (compileRegexpsAndDurations exampleEnv (setDefaults badLabelRegexpExample))
     = Some (''failed to compile label regexp: '' @ [CHR 0x22] @ ''('' @ [CHR 0x22]
             @ '', error: error parsing regexp: missing closing ): `(`'')"
proof -
  have 1: "compileTasks (setDefaults badCommentRegexpExample) =
             [PlainRegexp defaultSigMentionRegexp, PlainRegexp ''^release-.*$'', PlainRegexp ''('']"
    by (simp add: compileTasks_def setDefaults_fields badCommentRegexpExample_def zero_defaults)
  have 2: "compileTasks (setDefaults badLabelRegexpExample) =
             [PlainRegexp defaultSigMentionRegexp, PlainRegexp ''^release-.*$'', PlainRegexp '''',
              LabelRegexp ''('', GraceDuration ''5s'']"
    by (simp add: compileTasks_def setDefaults_fields badLabelRegexpExample_def zero_defaults
        withGracePeriod_def)
  show ?thesis
    unfolding compileRegexpsAndDurations_first_failure 1 2
    by (simp add: exampleEnv_simps defaultSigMentionRegexp_not_paren)
qed

section \<open>Properties of the merge\<close>

lemma presetLabelsLoop_Cons:
  "presetLabelsLoop (lv # rest) seen =
     (if labelValue lv \<in> seen then Inl (duplicatedPairMessage (labelValue lv))
      else presetLabelsLoop rest (insert (labelValue lv) seen))"
  by (cases lv) (simp add: labelValue_def duplicatedPairMessage_def Let_def)

lemma presetLabelsLoop_ok:
  "presetLabelsLoop ls seen = Inr seen' \<longleftrightarrow>
     distinct (map labelValue ls) \<and> set (map labelValue ls) \<inter> seen = {}
     \<and> seen' = seen \<union> set (map labelValue ls)"
proof (induction ls arbitrary: seen)
  case Nil
  then show ?case by auto
next
  case (Cons lv rest)
  show ?case
  proof (cases "labelValue lv \<in> seen")
    case True
    then show ?thesis by (simp add: presetLabelsLoop_Cons)
  next
    case False
    have "presetLabelsLoop (lv # rest) seen = Inr seen' \<longleftrightarrow>
          presetLabelsLoop rest (insert (labelValue lv) seen) = Inr seen'"
      using False by (simp add: presetLabelsLoop_Cons)
    also have "\<dots> \<longleftrightarrow> distinct (map labelValue rest)
         \<and> set (map labelValue rest) \<inter> insert (labelValue lv) seen = {}
         \<and> seen' = insert (labelValue lv) seen \<union> set (map labelValue rest)"
      by (rule Cons.IH)
    also have "\<dots> \<longleftrightarrow> distinct (map labelValue (lv # rest))
         \<and> set (map labelValue (lv # rest)) \<inter> seen = {}
         \<and> seen' = seen \<union> set (map labelValue (lv # rest))"
      using False by auto
    finally show ?thesis .
  qed
qed

lemma presetLabelsLoop_error:
  "presetLabelsLoop ls seen = Inl e \<Longrightarrow>
     \<exists>pair. e = duplicatedPairMessage pair \<and> pair \<in> set (map labelValue ls)
       \<and> (pair \<in> seen \<or> 2 \<le> count_list (map labelValue ls) pair)"
proof (induction ls arbitrary: seen)
  case Nil
  then show ?case by simp
next
  case (Cons lv rest)
  let ?p = "labelValue lv"
  show ?case
  proof (cases "?p \<in> seen")
    case True
    with Cons.prems have "e = duplicatedPairMessage ?p" by (simp add: presetLabelsLoop_Cons)
    with True show ?thesis by (intro exI [of _ ?p]) simp
  next
    case False
    with Cons.prems have "presetLabelsLoop rest (insert ?p seen) = Inl e"
      by (simp add: presetLabelsLoop_Cons)
    from Cons.IH [OF this] obtain pair where e: "e = duplicatedPairMessage pair"
      and m: "pair \<in> set (map labelValue rest)"
      and c: "pair \<in> insert ?p seen \<or> 2 \<le> count_list (map labelValue rest) pair"
      by blast
    have m1: "1 \<le> count_list (map labelValue rest) pair"
      using m count_list_0_iff [of "map labelValue rest" pair] by (simp add: Suc_le_eq)
    show ?thesis
    proof (cases "pair = ?p")
      case True
      then show ?thesis using e m m1 by (intro exI [of _ pair]) simp
    next
      case False
      then show ?thesis using e m c by (intro exI [of _ pair]) auto
    qed
  qed
qed

lemma presetsLoop_ok:
  "presetsLoop ps seen = None \<longleftrightarrow>
     distinct (pairStrings ps) \<and> set (pairStrings ps) \<inter> seen = {}"
proof (induction ps arbitrary: seen)
  case Nil
  then show ?case by (simp add: pairStrings_def labelValuePairs_def)
next
  case (Cons preset rest)
  have split: "pairStrings (preset # rest) = map labelValue (Labels preset) @ pairStrings rest"
    by (simp add: pairStrings_def labelValuePairs_def)
  show ?case
  proof (cases "presetLabelsLoop (Labels preset) seen")
    case (Inl e)
    have "\<not> (distinct (map labelValue (Labels preset))
             \<and> set (map labelValue (Labels preset)) \<inter> seen = {})"
      using Inl presetLabelsLoop_ok [of "Labels preset" seen] by auto
    then have "\<not> (distinct (pairStrings (preset # rest))
                  \<and> set (pairStrings (preset # rest)) \<inter> seen = {})"
      unfolding split by auto
    then show ?thesis using Inl by simp
  next
    case (Inr seen')
    then have ok: "distinct (map labelValue (Labels preset))"
      "set (map labelValue (Labels preset)) \<inter> seen = {}"
      "seen' = seen \<union> set (map labelValue (Labels preset))"
      using presetLabelsLoop_ok [of "Labels preset" seen seen'] by auto
    have "presetsLoop (preset # rest) seen = None \<longleftrightarrow> presetsLoop rest seen' = None"
      using Inr by simp
    also have "\<dots> \<longleftrightarrow> distinct (pairStrings rest) \<and> set (pairStrings rest) \<inter> seen' = {}"
      by (rule Cons.IH)
    also have "\<dots> \<longleftrightarrow> distinct (pairStrings (preset # rest))
                  \<and> set (pairStrings (preset # rest)) \<inter> seen = {}"
      unfolding split using ok by auto
    finally show ?thesis .
  qed
qed

lemma count_list_append: "count_list (xs @ ys) x = count_list xs x + count_list ys x"
  by (induction xs) auto

lemma count_list_pos: "x \<in> set xs \<Longrightarrow> 1 \<le> count_list xs x"
  using count_list_0_iff [of xs x] by (simp add: Suc_le_eq)

lemma presetsLoop_error:
  "presetsLoop ps seen = Some e \<Longrightarrow>
     \<exists>pair. e = duplicatedPairMessage pair \<and> pair \<in> set (pairStrings ps)
       \<and> (pair \<in> seen \<or> 2 \<le> count_list (pairStrings ps) pair)"
proof (induction ps arbitrary: seen)
  case Nil
  then show ?case by simp
next
  case (Cons preset rest)
  have split: "pairStrings (preset # rest) = map labelValue (Labels preset) @ pairStrings rest"
    by (simp add: pairStrings_def labelValuePairs_def)
  show ?case
  proof (cases "presetLabelsLoop (Labels preset) seen")
    case (Inl e')
    with Cons.prems have "e' = e" by simp
    with Inl presetLabelsLoop_error [of "Labels preset" seen e]
    obtain pair where p: "e = duplicatedPairMessage pair"
      "pair \<in> set (map labelValue (Labels preset))"
      "pair \<in> seen \<or> 2 \<le> count_list (map labelValue (Labels preset)) pair"
      by blast
    then show ?thesis
      unfolding split by (intro exI [of _ pair]) (auto simp: count_list_append)
  next
    case (Inr seen')
    then have seen': "seen' = seen \<union> set (map labelValue (Labels preset))"
      using presetLabelsLoop_ok [of "Labels preset" seen seen'] by auto
    from Inr Cons.prems have "presetsLoop rest seen' = Some e" by simp
    from Cons.IH [OF this] obtain pair where p: "e = duplicatedPairMessage pair"
      "pair \<in> set (pairStrings rest)"
      "pair \<in> seen' \<or> 2 \<le> count_list (pairStrings rest) pair"
      by blast
    have r1: "1 \<le> count_list (pairStrings rest) pair"
      using p(2) by (rule count_list_pos)
    show ?thesis
    proof (cases "pair \<in> set (map labelValue (Labels preset))")
      case True
      then have "1 \<le> count_list (map labelValue (Labels preset)) pair"
        by (rule count_list_pos)
      with r1 have "2 \<le> count_list (pairStrings (preset # rest)) pair"
        unfolding split by (simp add: count_list_append)
      with p show ?thesis unfolding split by (intro exI [of _ pair]) auto
    next
      case False
      with p(3) seen' have "pair \<in> seen \<or> 2 \<le> count_list (pairStrings rest) pair"
        by auto
      with p show ?thesis
        unfolding split by (intro exI [of _ pair]) (auto simp: count_list_append)
    qed
  qed
qed

text \<open>
  \<open>mergeJobConfig\<close> appends the presets of the fragment to those of the accumulator and
  checks the whole list. What it compares are the strings: it returns nil exactly when
  the strings \<open>label:value\<close> of all accumulated presets are pairwise distinct, and
  otherwise an error that shows a string occurring more than once in that list (whether
  its two occurrences come from one fragment or from two).
\<close>

lemma mergeJobConfig_compares_strings:
  "fst (mergeJobConfig c jc) = c\<lparr>Presets := Presets c @ Presets jc\<rparr>
   \<and> (snd (mergeJobConfig c jc) = None
        \<longleftrightarrow> distinct (pairStrings (Presets c @ Presets jc)))
   \<and> (\<forall>e. snd (mergeJobConfig c jc) = Some e \<longrightarrow>
        (\<exists>pair. e = duplicatedPairMessage pair
           \<and> 2 \<le> count_list (pairStrings (Presets c @ Presets jc)) pair))"
proof (intro conjI allI impI)
  show "fst (mergeJobConfig c jc) = c\<lparr>Presets := Presets c @ Presets jc\<rparr>"
    by (simp add: mergeJobConfig_def)
  show "snd (mergeJobConfig c jc) = None
        \<longleftrightarrow> distinct (pairStrings (Presets c @ Presets jc))"
    by (simp add: mergeJobConfig_def presetsLoop_ok)
  fix e
  assume "snd (mergeJobConfig c jc) = Some e"
  then have "presetsLoop (Presets c @ Presets jc) {} = Some e"
    by (simp add: mergeJobConfig_def)
  from presetsLoop_error [OF this]
  show "\<exists>pair. e = duplicatedPairMessage pair
           \<and> 2 \<le> count_list (pairStrings (Presets c @ Presets jc)) pair"
    by auto
qed

lemma count_list_distinct: "distinct xs \<Longrightarrow> count_list xs x \<le> 1"
  by (induction xs) (auto simp: count_list_0_iff)

text \<open>
  A label/value pair that occurs more than once in the accumulated presets is always
  rejected, and the error shows the string of a pair that occurs more than once.
\<close>

lemma mergeJobConfig_duplicated_pair:
  assumes "2 \<le> count_list (labelValuePairs (Presets c @ Presets jc)) lv"
  shows "\<exists>pair. snd (mergeJobConfig c jc) = Some (duplicatedPairMessage pair)
           \<and> 2 \<le> count_list (pairStrings (Presets c @ Presets jc)) pair"
proof -
  have "\<not> distinct (labelValuePairs (Presets c @ Presets jc))"
    using assms count_list_distinct [of "labelValuePairs (Presets c @ Presets jc)" lv] by auto
  then have "\<not> distinct (pairStrings (Presets c @ Presets jc))"
    by (simp add: pairStrings_def distinct_map)
  then obtain e where e: "snd (mergeJobConfig c jc) = Some e"
    using mergeJobConfig_compares_strings [of c jc] by (cases "snd (mergeJobConfig c jc)") auto
  then show ?thesis
    using mergeJobConfig_compares_strings [of c jc] by auto
qed

text \<open>
  The example of the specification: two fragments whose presets both have the label
  \<open>team\<close> with the value \<open>x\<close>.
\<close>

lemma mergeJobConfig_team_example:
  "mergeJobConfig (emptyConfig\<lparr>Presets := [teamPreset]\<rparr>) \<lparr>Presets = [teamPreset]\<rparr>
     = (emptyConfig\<lparr>Presets := [teamPreset, teamPreset]\<rparr>,
        Some (duplicatedPairMessage ''team:x''))"
  by (simp add: mergeJobConfig_def teamPreset_def emptyConfig_def duplicatedPairMessage_def)

text \<open>
  Two different pairs give the same string when the colon can be read in two places.
\<close>

lemma labelValue_is_not_injective:
  "(''a:b'', ''c'') \<noteq> (''a'', ''b:c'')
   \<and> labelValue (''a:b'', ''c'') = labelValue (''a'', ''b:c'')"
  by (simp add: labelValue_def)

text \<open>
  Claim C7. The claim says that \<open>mergeJobConfig\<close> returns an error whenever a label/value
  pair occurs more than once in the accumulated presets, which holds (lemma
  \<open>mergeJobConfig_duplicated_pair\<close>), and that it returns nil exactly when the pairs are
  pairwise distinct. The comment in the code says the same of the loop: it validates that
  no key-value pair of the presets is duplicated. The loop compares the strings
  \<open>label:value\<close> instead, and rejects presets whose pairs are all different: the receiver
  has no presets and the fragment has the one preset \<open>colonPreset\<close>, whose \<open>Labels\<close> map has
  the two keys \<open>a:b\<close> and \<open>a\<close>; the two pairs are different, the presets are appended, and
  the result is the error of a duplicated pair, for the string \<open>a:b:c\<close>.
\<close>

theorem mergeJobConfig_rejects_distinct_pairs:
  "distinct (map fst (Labels colonPreset))
   \<and> labelValuePairs (Presets emptyConfig @ Presets \<lparr>Presets = [colonPreset]\<rparr>)
       = [(''a:b'', ''c''), (''a'', ''b:c'')]
   \<and> distinct (labelValuePairs (Presets emptyConfig @ Presets \<lparr>Presets = [colonPreset]\<rparr>))
   \<and> mergeJobConfig emptyConfig \<lparr>Presets = [colonPreset]\<rparr>
       = (emptyConfig\<lparr>Presets := [colonPreset]\<rparr>, Some (duplicatedPairMessage ''a:b:c''))"
proof -
  have l: "Labels colonPreset = [(''a:b'', ''c''), (''a'', ''b:c'')]"
    by (simp add: colonPreset_def)
  have p: "Presets emptyConfig = []"
    by (simp add: emptyConfig_def)
  have 1: "distinct (map fst (Labels colonPreset))"
    by (simp add: l)
  have 2: "labelValuePairs (Presets emptyConfig @ Presets \<lparr>Presets = [colonPreset]\<rparr>)
           = [(''a:b'', ''c''), (''a'', ''b:c'')]"
    by (simp add: p l labelValuePairs_def)
  have 3: "distinct (labelValuePairs (Presets emptyConfig @ Presets \<lparr>Presets = [colonPreset]\<rparr>))"
    unfolding 2 by simp
  have 4: "mergeJobConfig emptyConfig \<lparr>Presets = [colonPreset]\<rparr>
           = (emptyConfig\<lparr>Presets := [colonPreset]\<rparr>, Some (duplicatedPairMessage ''a:b:c''))"
    by (simp add: mergeJobConfig_def p l duplicatedPairMessage_def)
  show ?thesis using 1 2 3 4 by blast
qed

section \<open>Properties of the directory walk\<close>

lemma walkFn_VisitError:
  "walkFn w st (VisitError path err) = (st\<lparr>walkLog := walkLog st @ [(err, path)]\<rparr>, Continue)"
  by (simp add: walkFn_def)

lemma core_walkLog [simp]: "core (st\<lparr>walkLog := l\<rparr>) = core st"
  by (simp add: core_def)

lemma walkFn_dir:
  "walkFn w st (Visit path name True) = (st, if prefix ''..'' name then SkipDir else Continue)"
  by (simp add: walkFn_def)

lemma walkFn_file_skipped:
  "prefix ''..'' name \<or> \<not> isYamlPath path \<Longrightarrow>
   walkFn w st (Visit path name False) = (st, Continue)"
  by (auto simp: walkFn_def isYamlPath_def)

lemma walkFn_file_loaded:
  assumes "\<not> prefix ''..'' name" and "isYamlPath path"
    and "walkFn w st (Visit path name False) = (st', r)"
  shows "loadFile w path (core st) = (core st', failure r) \<and> r \<noteq> SkipDir"
proof (cases "filepath_Base path \<in> uniqueBasenames st")
  case True
  then show ?thesis
    using assms
    by (auto simp: walkFn_def isYamlPath_def loadFile_def core_def duplicatedBasenameMessage_def
        Let_def)
next
  case False
  show ?thesis
  proof (cases "yamlToConfig w (yaml_UnmarshalJobConfig w) path")
    case (Inl err)
    then show ?thesis
      using assms False
      by (auto simp: walkFn_def isYamlPath_def loadFile_def core_def Let_def)
  next
    case (Inr subConfig)
    obtain nc1 res where m: "mergeJobConfig (nc st) subConfig = (nc1, res)"
      by (cases "mergeJobConfig (nc st) subConfig")
    show ?thesis
      using assms False Inr m
      by (cases res) (auto simp: walkFn_def isYamlPath_def loadFile_def core_def Let_def)
  qed
qed

lemma loadFiles_append:
  "loadFiles w (ps @ qs) s =
     (case loadFiles w ps s of
        (s1, None) \<Rightarrow> loadFiles w qs s1
      | (s1, Some e) \<Rightarrow> (s1, Some e))"
  by (induction ps arbitrary: s) (auto split: prod.splits option.splits)

lemma walkEntries_refines:
  assumes nodes: "\<And>e path st st' r. e \<in> set es \<Longrightarrow> walk w e path st = (st', r) \<Longrightarrow>
             loadFiles w (yamlFiles e path) (core st) = (core st', failure r)
             \<and> (r = SkipDir \<longrightarrow> nodeIsDir e)"
    and run: "walkEntries w es dir st = (st', r)"
  shows "loadFiles w (yamlFilesIn es dir) (core st) = (core st', failure r) \<and> r \<noteq> SkipDir"
  using assms
proof (induction es arbitrary: st)
  case Nil
  then show ?case by auto
next
  case (Cons entry entries)
  let ?fn = "filepath_Join dir (nodeName entry)"
  have rest: "\<And>st1. walkEntries w entries dir st1 = (st', r) \<Longrightarrow>
                loadFiles w (yamlFilesIn entries dir) (core st1) = (core st', failure r)
                \<and> r \<noteq> SkipDir"
    using Cons.IH Cons.prems(1) by (meson list.set_intros(2))
  show ?case
  proof (cases "\<exists>name err. entry = Unstatable name err")
    case True
    then obtain name err where u: "entry = Unstatable name err" by blast
    have "walkEntries w (entry # entries) dir st
          = walkEntries w entries dir (st\<lparr>walkLog := walkLog st @ [(err, ?fn)]\<rparr>)"
      by (simp add: u walkFn_VisitError)
    with Cons.prems(2)
    have "walkEntries w entries dir (st\<lparr>walkLog := walkLog st @ [(err, ?fn)]\<rparr>) = (st', r)"
      by simp
    from rest [OF this] show ?thesis by (simp add: u)
  next
    case False
    obtain st1 r1 where w1: "walk w entry ?fn st = (st1, r1)"
      by (cases "walk w entry ?fn st")
    have one: "loadFiles w (yamlFiles entry ?fn) (core st) = (core st1, failure r1)"
      and skip: "r1 = SkipDir \<longrightarrow> nodeIsDir entry"
      using Cons.prems(1) [of entry ?fn st st1 r1] w1 by auto
    have step: "walkEntries w (entry # entries) dir st =
       (case r1 of
          Continue \<Rightarrow> walkEntries w entries dir st1
        | SkipDir \<Rightarrow> if nodeIsDir entry then walkEntries w entries dir st1 else (st1, SkipDir)
        | Fail e \<Rightarrow> (st1, Fail e))"
      using False w1 by (cases entry) (simp_all add: Let_def)
    show ?thesis
    proof (cases r1)
      case Continue
      with step Cons.prems(2) have "walkEntries w entries dir st1 = (st', r)" by simp
      from rest [OF this] show ?thesis
        using one Continue by (simp add: loadFiles_append)
    next
      case SkipDir
      with step skip Cons.prems(2) have "walkEntries w entries dir st1 = (st', r)" by simp
      from rest [OF this] show ?thesis
        using one SkipDir by (simp add: loadFiles_append)
    next
      case (Fail e)
      with step Cons.prems(2) have "st' = st1" "r = Fail e" by simp_all
      then show ?thesis using one Fail by (simp add: loadFiles_append)
    qed
  qed
qed

lemma walk_refines:
  "walk w node path st = (st', r) \<Longrightarrow>
   loadFiles w (yamlFiles node path) (core st) = (core st', failure r)
   \<and> (r = SkipDir \<longrightarrow> nodeIsDir node)"
proof (induction node arbitrary: path st st' r)
  case (File name)
  show ?case
  proof (cases "prefix ''..'' name \<or> \<not> isYamlPath path")
    case True
    then have "walkFn w st (Visit path name False) = (st, Continue)"
      by (rule walkFn_file_skipped)
    with File have "st' = st" "r = Continue" by simp_all
    then show ?thesis using True by auto
  next
    case False
    then have a: "\<not> prefix ''..'' name" "isYamlPath path" by auto
    from File have "walkFn w st (Visit path name False) = (st', r)" by simp
    from walkFn_file_loaded [OF a this] show ?thesis using a by (simp split: option.splits)
  qed
next
  case (Dir name entries)
  show ?case
  proof (cases "prefix ''..'' name")
    case True
    with Dir.prems have "st' = st" "r = SkipDir" by (simp_all add: walkFn_dir)
    then show ?thesis using True by simp
  next
    case False
    with Dir.prems have run: "walkEntries w entries path st = (st', r)"
      by (simp add: walkFn_dir)
    have "loadFiles w (yamlFilesIn entries path) (core st) = (core st', failure r)
          \<and> r \<noteq> SkipDir"
      using Dir.IH run by (intro walkEntries_refines) auto
    then show ?thesis using False by simp
  qed
next
  case (UnreadableDir name err)
  then show ?case by (auto simp: walkFn_VisitError)
next
  case (Unstatable name err)
  then show ?case by (auto simp: walkFn_VisitError)
qed

text \<open>
  The walk does to the basenames and to the configuration what loading the files of
  \<open>yamlFiles\<close> one after the other does, and fails with the same error.
\<close>

lemma filepath_Walk_refines:
  "filepath_Walk w root st = (st', res) \<Longrightarrow>
   loadFiles w (yamlFiles (walkTree w root) root) (core st) = (core st', res)"
proof -
  assume a: "filepath_Walk w root st = (st', res)"
  obtain st1 r where w1: "walk w (walkTree w root) root st = (st1, r)"
    by (cases "walk w (walkTree w root) root st")
  from a w1 have "st' = st1" "res = failure r"
    by (cases r; simp add: filepath_Walk_def)+
  with walk_refines [OF w1] show ?thesis by simp
qed

lemma loadFile_ok:
  "loadFile w p (seen, c) = ((seen', c'), None) \<Longrightarrow>
   filepath_Base p \<notin> seen \<and> seen' = insert (filepath_Base p) seen"
  by (auto simp: loadFile_def split: if_splits sum.splits)

lemma loadFile_failure:
  "loadFile w p (seen, c) = (s', Some e) \<Longrightarrow>
   (filepath_Base p \<in> seen \<and> e = duplicatedBasenameMessage (filepath_Base p))
   \<or> yamlToConfig w (yaml_UnmarshalJobConfig w) p = Inl e
   \<or> (\<exists>subConfig. yamlToConfig w (yaml_UnmarshalJobConfig w) p = Inr subConfig
         \<and> snd (mergeJobConfig c subConfig) = Some e)"
  by (auto simp: loadFile_def split: if_splits sum.splits)

lemma loadFile_duplicate:
  "filepath_Base p \<in> seen \<Longrightarrow>
   loadFile w p (seen, c) = ((seen, c), Some (duplicatedBasenameMessage (filepath_Base p)))"
  by (simp add: loadFile_def)

lemma loadFiles_ok:
  "loadFiles w ps (seen, c) = ((seen', c'), None) \<Longrightarrow>
   distinct (map filepath_Base ps) \<and> filepath_Base ` set ps \<inter> seen = {}
   \<and> seen' = seen \<union> filepath_Base ` set ps"
proof (induction ps arbitrary: seen c)
  case Nil
  then show ?case by simp
next
  case (Cons p ps)
  obtain seen1 c1 r1 where one: "loadFile w p (seen, c) = ((seen1, c1), r1)"
    by (metis surj_pair)
  with Cons.prems have r1: "r1 = None"
    by (cases r1) simp_all
  from one r1 have s1: "filepath_Base p \<notin> seen" "seen1 = insert (filepath_Base p) seen"
    using loadFile_ok by blast+
  from Cons.prems one r1 have "loadFiles w ps (seen1, c1) = ((seen', c'), None)" by simp
  from Cons.IH [OF this] s1 show ?case by auto
qed

lemma loadFiles_failure:
  "loadFiles w ps (seen, c) = (s', Some e) \<Longrightarrow>
   \<exists>p \<in> set ps.
     e = duplicatedBasenameMessage (filepath_Base p)
     \<or> yamlToConfig w (yaml_UnmarshalJobConfig w) p = Inl e
     \<or> (\<exists>(c1 :: Config) subConfig. yamlToConfig w (yaml_UnmarshalJobConfig w) p = Inr subConfig
           \<and> snd (mergeJobConfig c1 subConfig) = Some e)"
proof (induction ps arbitrary: seen c)
  case Nil
  then show ?case by simp
next
  case (Cons p ps)
  obtain seen1 c1 r1 where one: "loadFile w p (seen, c) = ((seen1, c1), r1)"
    by (metis surj_pair)
  show ?case
  proof (cases r1)
    case None
    with Cons.prems one have "loadFiles w ps (seen1, c1) = (s', Some e)" by simp
    from Cons.IH [OF this] show ?thesis by auto
  next
    case (Some e1)
    with Cons.prems one have "e1 = e" by simp
    with one Some loadFile_failure [of w p seen c "(seen1, c1)" e]
    show ?thesis by auto
  qed
qed

lemma loadFiles_first_duplicate:
  assumes "loadFiles w ps (seen, c) = ((seen1, c1), None)"
    and "filepath_Base p \<in> filepath_Base ` set ps"
  shows "loadFiles w (ps @ p # qs) (seen, c)
         = ((seen1, c1), Some (duplicatedBasenameMessage (filepath_Base p)))"
proof -
  from loadFiles_ok [OF assms(1)] assms(2) have "filepath_Base p \<in> seen1" by auto
  then show ?thesis
    by (simp add: loadFiles_append assms(1) loadFile_duplicate)
qed

lemma Load_directory:
  assumes "os_Stat w prowConfig = Inr False"
    and "yamlToConfig w (yaml_UnmarshalConfig w) prowConfig = Inr nc0"
    and "jobConfig \<noteq> ''''"
    and "os_Stat w jobConfig = Inr True"
  shows "snd (Load w prowConfig jobConfig) =
     (case loadFiles w (yamlFiles (walkTree w jobConfig) jobConfig) ({}, nc0) of
        ((seen, c), None) \<Rightarrow> Inr c
      | ((seen, c), Some e) \<Rightarrow> Inl e)"
proof -
  let ?st = "\<lparr>uniqueBasenames = {}, nc = nc0, walkLog = []\<rparr>"
  obtain st' res where wk: "filepath_Walk w jobConfig ?st = (st', res)"
    by (cases "filepath_Walk w jobConfig ?st")
  from filepath_Walk_refines [OF wk]
  have lf: "loadFiles w (yamlFiles (walkTree w jobConfig) jobConfig) ({}, nc0)
            = ((uniqueBasenames st', nc st'), res)"
    by (simp add: core_def)
  have "snd (Load w prowConfig jobConfig) = (case res of Some e \<Rightarrow> Inl e | None \<Rightarrow> Inr (nc st'))"
    using assms wk by (cases res) (simp_all add: Load_def loadConfig_def)
  then show ?thesis by (cases res) (simp_all add: lf)
qed

lemma exampleWorld_simps:
  "os_Stat (exampleWorld tree) ''config.yaml'' = Inr False"
  "os_Stat (exampleWorld tree) ''jobs'' = Inr True"
  "walkTree (exampleWorld tree) root = tree"
  "ioutil_ReadFile (exampleWorld tree) path =
     (if path = ''jobs/broken.yaml'' then Inr ''presets: [''
      else if path = ''jobs/secret.yaml'' then Inl ''open jobs/secret.yaml: permission denied''
      else Inr '''')"
  "yaml_UnmarshalConfig (exampleWorld tree) b = Inr emptyConfig"
  "yaml_UnmarshalJobConfig (exampleWorld tree) b =
     (if b = ''presets: [''
      then Inl ''error converting YAML to JSON: yaml: line 1: did not find expected node content''
      else Inr \<lparr>Presets = []\<rparr>)"
  by (simp_all add: exampleWorld_def)

lemma exampleWorld_main:
  "yamlToConfig (exampleWorld tree) (yaml_UnmarshalConfig (exampleWorld tree)) ''config.yaml''
   = Inr emptyConfig"
  by (simp add: yamlToConfig_def exampleWorld_simps)

text \<open>
  Under a root that is not clean the paths of the entries are clean all the same: the walk
  of \<open>jobs/\<close> reads \<open>jobs/x.yaml\<close>, and the walk of \<open>.\<close> reads \<open>x.yaml\<close>.
\<close>

lemma filepath_Join_cleans:
  "filepath_Join ''jobs/'' ''x.yaml'' = ''jobs/x.yaml''"
  "filepath_Join ''.'' ''x.yaml'' = ''x.yaml''"
  "filepath_Join ''./jobs//a/../b'' ''x.yaml'' = ''jobs/b/x.yaml''"
  "filepath_Join ''/'' ''x.yaml'' = ''/x.yaml''"
  "filepath_Join ''..'' ''x.yaml'' = ''../x.yaml''"
  by (simp_all add: filepath_Join_def filepath_Clean_def)

lemma example_paths:
  "filepath_Join ''jobs'' ''broken.yaml'' = ''jobs/broken.yaml''"
  "filepath_Join ''jobs'' ''0'' = ''jobs/0''"
  "filepath_Join ''jobs'' ''a'' = ''jobs/a''"
  "filepath_Join ''jobs'' ''b'' = ''jobs/b''"
  "filepath_Join ''jobs/a'' ''x.yaml'' = ''jobs/a/x.yaml''"
  "filepath_Join ''jobs/b'' ''x.yaml'' = ''jobs/b/x.yaml''"
  "isYamlPath ''jobs/broken.yaml''"
  "isYamlPath ''jobs/a/x.yaml''"
  "isYamlPath ''jobs/b/x.yaml''"
  "filepath_Base ''jobs/broken.yaml'' = ''broken.yaml''"
  "filepath_Base ''jobs/a/x.yaml'' = ''x.yaml''"
  "filepath_Base ''jobs/b/x.yaml'' = ''x.yaml''"
  "filepath_Join ''jobs'' ''secret.yaml'' = ''jobs/secret.yaml''"
  "isYamlPath ''jobs/secret.yaml''"
  "filepath_Base ''jobs/secret.yaml'' = ''secret.yaml''"
  by (simp_all add: filepath_Join_def filepath_Clean_def isYamlPath_def filepath_Ext_def
      filepath_Base_def)

lemma yamlFiles_brokenTree: "yamlFiles brokenTree ''jobs'' = [''jobs/broken.yaml'']"
  by (simp add: brokenTree_def example_paths)

lemma yamlFiles_secretTree: "yamlFiles secretTree ''jobs'' = [''jobs/secret.yaml'']"
  by (simp add: secretTree_def example_paths)

lemma yamlFiles_twiceTree: "yamlFiles twiceTree ''jobs'' = [''jobs/a/x.yaml'', ''jobs/b/x.yaml'']"
  by (simp add: twiceTree_def example_paths)

text \<open>
  Claim C8 says that a second file with the basename of a \<open>.yaml\<close> or \<open>.yml\<close> file visited
  before aborts the walk and fails the load with an error naming the basename, that a walk
  error is logged and skipped, and that the duplicated basename is the only condition of
  one entry that fails the whole load. The last part does not hold: in a directory with
  the single file \<open>broken.yaml\<close>, which the YAML parser rejects, no basename occurs twice
  and \<open>Load\<close> fails with the error of the parser; and in a directory with the single file
  \<open>secret.yaml\<close>, which cannot be opened, \<open>Load\<close> fails with the error of the read, which is
  returned and not logged.
\<close>

theorem Load_fails_without_duplicated_basename:
  "snd (Load (exampleWorld brokenTree) ''config.yaml'' ''jobs'')
     = Inl (''error unmarshaling jobs/broken.yaml: ''
            @ ''error converting YAML to JSON: yaml: line 1: did not find expected node content'')
   \<and> yamlFiles (walkTree (exampleWorld brokenTree) ''jobs'') ''jobs'' = [''jobs/broken.yaml'']
   \<and> distinct (map filepath_Base (yamlFiles (walkTree (exampleWorld brokenTree) ''jobs'') ''jobs''))
   \<and> Load (exampleWorld secretTree) ''config.yaml'' ''jobs''
     = ([], Inl ''error reading jobs/secret.yaml: open jobs/secret.yaml: permission denied'')
   \<and> yamlFiles (walkTree (exampleWorld secretTree) ''jobs'') ''jobs'' = [''jobs/secret.yaml'']"
proof -
  have j: "''jobs'' \<noteq> ''''" by simp
  have s: "Load (exampleWorld secretTree) ''config.yaml'' ''jobs''
     = ([], Inl ''error reading jobs/secret.yaml: open jobs/secret.yaml: permission denied'')"
    by (simp add: Load_def loadConfig_def exampleWorld_simps exampleWorld_main filepath_Walk_def
        secretTree_def walkFn_def example_paths isYamlPath_def [symmetric] yamlToConfig_def
        Let_def)
  have "snd (Load (exampleWorld brokenTree) ''config.yaml'' ''jobs'')
     = Inl (''error unmarshaling jobs/broken.yaml: ''
            @ ''error converting YAML to JSON: yaml: line 1: did not find expected node content'')"
    unfolding Load_directory [OF exampleWorld_simps(1) exampleWorld_main j exampleWorld_simps(2)]
    by (simp add: exampleWorld_simps yamlFiles_brokenTree loadFile_def example_paths
        yamlToConfig_def)
  then show ?thesis
    using s by (simp add: exampleWorld_simps yamlFiles_brokenTree yamlFiles_secretTree)
qed

text \<open>
  Claim C8 as amended. When the job configuration is a directory: a walk error that
  reaches the function is logged and the walk goes on; the outcome of \<open>Load\<close> is that of
  loading the \<open>.yaml\<close> and \<open>.yml\<close> files of the walk one after the other; a file whose
  basename is that of a file loaded before it aborts the walk and makes \<open>Load\<close> fail with the
  error naming the basename; every failure of \<open>Load\<close> in the walk comes from one of those
  files and is a duplicated basename, a failure to read or parse the file, or a failure to
  merge its presets; and after a successful \<open>Load\<close> the basenames of the files are distinct.
\<close>

theorem Load_directory_walk:
  assumes "os_Stat w prowConfig = Inr False"
    and "yamlToConfig w (yaml_UnmarshalConfig w) prowConfig = Inr nc0"
    and "jobConfig \<noteq> ''''"
    and "os_Stat w jobConfig = Inr True"
  shows "walkFn w st (VisitError path err) = (st\<lparr>walkLog := walkLog st @ [(err, path)]\<rparr>, Continue)
   \<and> snd (Load w prowConfig jobConfig) =
       (case loadFiles w (yamlFiles (walkTree w jobConfig) jobConfig) ({}, nc0) of
          ((seen, c), None) \<Rightarrow> Inr c
        | ((seen, c), Some e) \<Rightarrow> Inl e)
   \<and> (\<forall>ps p qs s1.
         yamlFiles (walkTree w jobConfig) jobConfig = ps @ p # qs
         \<and> loadFiles w ps ({}, nc0) = (s1, None)
         \<and> filepath_Base p \<in> filepath_Base ` set ps
         \<longrightarrow> snd (Load w prowConfig jobConfig)
               = Inl (duplicatedBasenameMessage (filepath_Base p)))
   \<and> (\<forall>e. snd (Load w prowConfig jobConfig) = Inl e \<longrightarrow>
         (\<exists>p \<in> set (yamlFiles (walkTree w jobConfig) jobConfig).
            e = duplicatedBasenameMessage (filepath_Base p)
            \<or> yamlToConfig w (yaml_UnmarshalJobConfig w) p = Inl e
            \<or> (\<exists>(c1 :: Config) subConfig.
                  yamlToConfig w (yaml_UnmarshalJobConfig w) p = Inr subConfig
                  \<and> snd (mergeJobConfig c1 subConfig) = Some e)))
   \<and> (\<forall>c. snd (Load w prowConfig jobConfig) = Inr c \<longrightarrow>
         distinct (map filepath_Base (yamlFiles (walkTree w jobConfig) jobConfig)))"
proof -
  let ?files = "yamlFiles (walkTree w jobConfig) jobConfig"
  note L = Load_directory [OF assms]
  have 1: "walkFn w st (VisitError path err)
           = (st\<lparr>walkLog := walkLog st @ [(err, path)]\<rparr>, Continue)"
    by (rule walkFn_VisitError)
  have 3: "\<forall>ps p qs s1.
         ?files = ps @ p # qs \<and> loadFiles w ps ({}, nc0) = (s1, None)
         \<and> filepath_Base p \<in> filepath_Base ` set ps
         \<longrightarrow> snd (Load w prowConfig jobConfig)
               = Inl (duplicatedBasenameMessage (filepath_Base p))"
  proof (intro allI impI)
    fix ps p qs s1
    assume a: "?files = ps @ p # qs \<and> loadFiles w ps ({}, nc0) = (s1, None)
               \<and> filepath_Base p \<in> filepath_Base ` set ps"
    obtain seen1 c1 where s1: "s1 = (seen1, c1)" by (cases s1)
    from a s1 have "loadFiles w (ps @ p # qs) ({}, nc0)
                    = ((seen1, c1), Some (duplicatedBasenameMessage (filepath_Base p)))"
      by (intro loadFiles_first_duplicate) auto
    with a show "snd (Load w prowConfig jobConfig)
                 = Inl (duplicatedBasenameMessage (filepath_Base p))"
      by (simp add: L)
  qed
  have 4: "\<forall>e. snd (Load w prowConfig jobConfig) = Inl e \<longrightarrow>
         (\<exists>p \<in> set ?files.
            e = duplicatedBasenameMessage (filepath_Base p)
            \<or> yamlToConfig w (yaml_UnmarshalJobConfig w) p = Inl e
            \<or> (\<exists>(c1 :: Config) subConfig.
                  yamlToConfig w (yaml_UnmarshalJobConfig w) p = Inr subConfig
                  \<and> snd (mergeJobConfig c1 subConfig) = Some e))"
  proof (intro allI impI)
    fix e
    assume f: "snd (Load w prowConfig jobConfig) = Inl e"
    obtain s' res where lf: "loadFiles w ?files ({}, nc0) = (s', res)"
      by (cases "loadFiles w ?files ({}, nc0)")
    from f lf have "res = Some e"
      unfolding L by (cases s'; cases res) simp_all
    with lf have "loadFiles w ?files ({}, nc0) = (s', Some e)" by simp
    then show "\<exists>p \<in> set ?files.
            e = duplicatedBasenameMessage (filepath_Base p)
            \<or> yamlToConfig w (yaml_UnmarshalJobConfig w) p = Inl e
            \<or> (\<exists>(c1 :: Config) subConfig.
                  yamlToConfig w (yaml_UnmarshalJobConfig w) p = Inr subConfig
                  \<and> snd (mergeJobConfig c1 subConfig) = Some e)"
      by (rule loadFiles_failure)
  qed
  have 5: "\<forall>c. snd (Load w prowConfig jobConfig) = Inr c \<longrightarrow>
             distinct (map filepath_Base ?files)"
  proof (intro allI impI)
    fix c
    assume f: "snd (Load w prowConfig jobConfig) = Inr c"
    obtain seen' c' res where lf: "loadFiles w ?files ({}, nc0) = ((seen', c'), res)"
      by (metis surj_pair)
    from f lf have "res = None"
      unfolding L by (cases res) simp_all
    with lf loadFiles_ok [of w ?files "{}" nc0 seen' c']
    show "distinct (map filepath_Base ?files)" by simp
  qed
  from 1 L 3 4 5 show ?thesis by blast
qed

lemma Load_twiceTree_log:
  "fst (Load (exampleWorld twiceTree) ''config.yaml'' ''jobs'')
   = [(''lstat jobs/0: permission denied'', ''jobs/0'')]"
  by (simp add: Load_def loadConfig_def exampleWorld_simps exampleWorld_main filepath_Walk_def
      twiceTree_def walkFn_def example_paths isYamlPath_def [symmetric] yamlToConfig_def
      mergeJobConfig_def emptyConfig_def Let_def)

theorem Load_directory_walk_witness:
  "os_Stat (exampleWorld twiceTree) ''config.yaml'' = Inr False
   \<and> yamlToConfig (exampleWorld twiceTree) (yaml_UnmarshalConfig (exampleWorld twiceTree))
        ''config.yaml'' = Inr emptyConfig
   \<and> ''jobs'' \<noteq> ''''
   \<and> os_Stat (exampleWorld twiceTree) ''jobs'' = Inr True
   \<and> yamlFiles (walkTree (exampleWorld twiceTree) ''jobs'') ''jobs''
       = [''jobs/a/x.yaml''] @ ''jobs/b/x.yaml'' # []
   \<and> filepath_Base ''jobs/b/x.yaml'' \<in> filepath_Base ` set [''jobs/a/x.yaml'']
   \<and> snd (Load (exampleWorld twiceTree) ''config.yaml'' ''jobs'')
       = Inl ''duplicated basename is not allowed: x.yaml''
   \<and> fst (Load (exampleWorld twiceTree) ''config.yaml'' ''jobs'')
       = [(''lstat jobs/0: permission denied'', ''jobs/0'')]"
proof -
  let ?w = "exampleWorld twiceTree"
  have j: "''jobs'' \<noteq> ''''" by simp
  note t = Load_directory_walk [OF exampleWorld_simps(1) exampleWorld_main j exampleWorld_simps(2),
      of twiceTree]
  have files: "yamlFiles (walkTree ?w ''jobs'') ''jobs'' = [''jobs/a/x.yaml''] @ ''jobs/b/x.yaml'' # []"
    by (simp add: exampleWorld_simps yamlFiles_twiceTree)
  have first: "loadFiles ?w [''jobs/a/x.yaml''] ({}, emptyConfig)
               = (({''x.yaml''}, emptyConfig), None)"
    by (simp add: loadFile_def example_paths yamlToConfig_def exampleWorld_simps
        mergeJobConfig_def emptyConfig_def)
  have base: "filepath_Base ''jobs/b/x.yaml'' \<in> filepath_Base ` set [''jobs/a/x.yaml'']"
    by (simp add: example_paths)
  from t files first base
  have "snd (Load ?w ''config.yaml'' ''jobs'')
        = Inl (duplicatedBasenameMessage (filepath_Base ''jobs/b/x.yaml''))"
    by blast
  then have "snd (Load ?w ''config.yaml'' ''jobs'') = Inl ''duplicated basename is not allowed: x.yaml''"
    by (simp add: duplicatedBasenameMessage_def example_paths)
  then show ?thesis
    using files base Load_twiceTree_log
    by (simp add: exampleWorld_simps exampleWorld_main)
qed

end
